theory Spec2Isabelle
  imports Main "HOL-Library.Word"
begin

unbundle bit_operations_syntax

section \<open>Python values used by DeafAuth\<close>

text \<open>
  Exceptions are values. Every constructor is a subclass of Python's \<open>Exception\<close>, so an
  \<open>except Exception\<close> clause catches each of them.
\<close>

datatype exn =
    ValueError | KeyError | TypeError | OverflowError | AttributeError
  | UnicodeDecodeError | JSONDecodeError | DecryptError | IntegrityError | OperationalError

text \<open>Sequencing of calls that may raise: the first exception ends the block.\<close>

definition bind_exn :: "exn + 'a \<Rightarrow> ('a \<Rightarrow> exn + 'b) \<Rightarrow> exn + 'b" where
  "bind_exn m f = (case m of Inl e \<Rightarrow> Inl e | Inr x \<Rightarrow> f x)"

text \<open>
  JSON values as Python objects (\<open>None\<close>, \<open>bool\<close>, \<open>int\<close>, \<open>str\<close>, \<open>list\<close>,
  \<open>dict\<close>). A \<open>str\<close> is a \<open>string\<close> whose characters are the code points 0..255.
\<close>

datatype json =
    JNull | JBool bool | JNum int | JStr string | JList "json list" | JDict "(string \<times> json) list"

text \<open>Truthiness, as \<open>if x:\<close> and \<open>not x\<close> test it.\<close>

fun truthy :: "json \<Rightarrow> bool" where
  "truthy JNull = False"
| "truthy (JBool b) = b"
| "truthy (JNum n) = (n \<noteq> 0)"
| "truthy (JStr s) = (s \<noteq> [])"
| "truthy (JList xs) = (xs \<noteq> [])"
| "truthy (JDict kvs) = (kvs \<noteq> [])"

text \<open>\<open>obj[key]\<close> with a \<open>str\<close> key: only a \<open>dict\<close> that has the key answers.\<close>

fun getitem :: "json \<Rightarrow> string \<Rightarrow> exn + json" where
  "getitem (JDict kvs) k = (case map_of kvs k of None \<Rightarrow> Inl KeyError | Some v \<Rightarrow> Inr v)"
| "getitem _ k = Inl TypeError"

text \<open>\<open>obj.get(key, default)\<close>: a method of \<open>dict\<close> only.\<close>

fun dict_get :: "json \<Rightarrow> string \<Rightarrow> json \<Rightarrow> exn + json" where
  "dict_get (JDict kvs) k d = (case map_of kvs k of None \<Rightarrow> Inr d | Some v \<Rightarrow> Inr v)"
| "dict_get _ k d = Inl AttributeError"

subsection \<open>String methods\<close>

text \<open>\<open>str.isspace\<close> on the code points 0..255.\<close>

definition is_space :: "char \<Rightarrow> bool" where
  "is_space c = (let n = (of_char c :: nat) in
     (9 \<le> n \<and> n \<le> 13) \<or> (28 \<le> n \<and> n \<le> 32) \<or> n = 133 \<or> n = 160)"

text \<open>\<open>str.lower\<close> on the code points 0..255: A-Z and the Latin-1 capitals but the times sign.\<close>

definition lower_char :: "char \<Rightarrow> char" where
  "lower_char c = (let n = (of_char c :: nat) in
     if (65 \<le> n \<and> n \<le> 90) \<or> (192 \<le> n \<and> n \<le> 222 \<and> n \<noteq> 215)
     then char_of (n + 32) else c)"

definition lower :: "string \<Rightarrow> string" where
  "lower s = map lower_char s"

text \<open>\<open>str.strip()\<close>: whitespace removed at both ends.\<close>

definition strip :: "string \<Rightarrow> string" where
  "strip s = rev (dropWhile is_space (rev (dropWhile is_space s)))"

text \<open>
  \<open>str.split()\<close> with no argument: the maximal runs of non-whitespace characters.
  The first argument is the run being read.
\<close>

fun split_run :: "string \<Rightarrow> string \<Rightarrow> string list" where
  "split_run w [] = (if w = [] then [] else [w])"
| "split_run w (c # cs) =
     (if is_space c then (if w = [] then split_run [] cs else w # split_run [] cs)
      else split_run (w @ [c]) cs)"

definition split :: "string \<Rightarrow> string list" where
  "split s = split_run [] s"

text \<open>
  \<open>str(n)\<close> of an \<open>int\<close>: decimal digits, with a minus sign below zero. This is \<open>str\<close>
  on the integers of at most 4300 digits; beyond that limit Python (from 3.11) raises
  \<open>ValueError\<close> instead, and so does \<open>int\<close> on a string with more digits. Row ids,
  which are 64-bit integers, are far inside the limit.
\<close>

definition digit_char :: "nat \<Rightarrow> char" where
  "digit_char d = char_of (48 + d)"

fun digits :: "nat \<Rightarrow> string" where
  "digits n = (if n < 10 then [digit_char n] else digits (n div 10) @ [digit_char (n mod 10)])"

declare digits.simps [simp del]

definition str_int :: "int \<Rightarrow> string" where
  "str_int i = (if i < 0 then CHR ''-'' # digits (nat (- i)) else digits (nat i))"

text \<open>
  \<open>int(s)\<close> of a \<open>str\<close>: surrounding whitespace is dropped (the characters \<open>int\<close>
  accepts there: 9..13, 32, 133, 160), then an optional sign, then decimal digits, where
  single underscores may stand between two digits. Anything else is a \<open>ValueError\<close>.
\<close>

definition is_int_space :: "char \<Rightarrow> bool" where
  "is_int_space c = (let n = (of_char c :: nat) in
     (9 \<le> n \<and> n \<le> 13) \<or> n = 32 \<or> n = 133 \<or> n = 160)"

definition is_digit :: "char \<Rightarrow> bool" where
  "is_digit c = (let n = (of_char c :: nat) in 48 \<le> n \<and> n \<le> 57)"

definition digit_val :: "char \<Rightarrow> nat" where
  "digit_val c = of_char c - 48"

text \<open>
  \<open>parse_digits acc prev cs\<close> reads the rest \<open>cs\<close> of a digit string; \<open>prev\<close> tells
  whether the character just read was a digit.
\<close>

fun parse_digits :: "nat \<Rightarrow> bool \<Rightarrow> string \<Rightarrow> nat option" where
  "parse_digits acc prev [] = (if prev then Some acc else None)"
| "parse_digits acc prev (c # cs) =
     (if is_digit c then parse_digits (acc * 10 + digit_val c) True cs
      else if c = CHR ''_'' \<and> prev \<and> cs \<noteq> [] \<and> is_digit (hd cs) then parse_digits acc False cs
      else None)"

definition int_str :: "string \<Rightarrow> exn + int" where
  "int_str s =
     (let t = rev (dropWhile is_int_space (rev (dropWhile is_int_space s))) in
      case t of
        [] \<Rightarrow> Inl ValueError
      | c # r \<Rightarrow>
          (if c = CHR ''-'' then
             (case parse_digits 0 False r of None \<Rightarrow> Inl ValueError | Some n \<Rightarrow> Inr (- int n))
           else if c = CHR ''+'' then
             (case parse_digits 0 False r of None \<Rightarrow> Inl ValueError | Some n \<Rightarrow> Inr (int n))
           else
             (case parse_digits 0 False t of None \<Rightarrow> Inl ValueError | Some n \<Rightarrow> Inr (int n))))"

text \<open>\<open>int(x)\<close> of a JSON value.\<close>

fun int_json :: "json \<Rightarrow> exn + int" where
  "int_json (JStr s) = int_str s"
| "int_json (JNum n) = Inr n"
| "int_json (JBool b) = Inr (if b then 1 else 0)"
| "int_json _ = Inl TypeError"

subsection \<open>Bytes and SHA-256\<close>

text \<open>
  \<open>hashlib.sha256(data).digest()\<close> is the standard library's SHA-256 (FIPS 180-4), written
  out here on 32-bit words: padding, message schedule, 64 rounds per 64-byte block. The round
  constants and the initial state are given in decimal.
\<close>

type_synonym byte = "8 word"
type_synonym u32 = "32 word"
type_synonym sha_state = "u32 \<times> u32 \<times> u32 \<times> u32 \<times> u32 \<times> u32 \<times> u32 \<times> u32"

definition K256 :: "u32 list" where
  "K256 =
    [1116352408, 1899447441, 3049323471, 3921009573, 961987163, 1508970993,
     2453635748, 2870763221, 3624381080, 310598401, 607225278, 1426881987,
     1925078388, 2162078206, 2614888103, 3248222580, 3835390401, 4022224774,
     264347078, 604807628, 770255983, 1249150122, 1555081692, 1996064986,
     2554220882, 2821834349, 2952996808, 3210313671, 3336571891, 3584528711,
     113926993, 338241895, 666307205, 773529912, 1294757372, 1396182291,
     1695183700, 1986661051, 2177026350, 2456956037, 2730485921, 2820302411,
     3259730800, 3345764771, 3516065817, 3600352804, 4094571909, 275423344,
     430227734, 506948616, 659060556, 883997877, 958139571, 1322822218,
     1537002063, 1747873779, 1955562222, 2024104815, 2227730452, 2361852424,
     2428436474, 2756734187, 3204031479, 3329325298]"

definition H256 :: sha_state where
  "H256 = (1779033703, 3144134277, 1013904242, 2773480762, 1359893119, 2600822924, 528734635, 1541459225)"

definition rotr :: "nat \<Rightarrow> u32 \<Rightarrow> u32" where
  "rotr n x = drop_bit n x OR push_bit (32 - n) x"

definition Ch :: "u32 \<Rightarrow> u32 \<Rightarrow> u32 \<Rightarrow> u32" where
  "Ch x y z = (x AND y) XOR (NOT x AND z)"

definition Maj :: "u32 \<Rightarrow> u32 \<Rightarrow> u32 \<Rightarrow> u32" where
  "Maj x y z = (x AND y) XOR (x AND z) XOR (y AND z)"

definition bsig0 :: "u32 \<Rightarrow> u32" where
  "bsig0 x = rotr 2 x XOR rotr 13 x XOR rotr 22 x"

definition bsig1 :: "u32 \<Rightarrow> u32" where
  "bsig1 x = rotr 6 x XOR rotr 11 x XOR rotr 25 x"

definition ssig0 :: "u32 \<Rightarrow> u32" where
  "ssig0 x = rotr 7 x XOR rotr 18 x XOR drop_bit 3 x"

definition ssig1 :: "u32 \<Rightarrow> u32" where
  "ssig1 x = rotr 17 x XOR rotr 19 x XOR drop_bit 10 x"

definition be32 :: "byte list \<Rightarrow> u32" where
  "be32 bs = foldl (\<lambda>acc b. push_bit 8 acc OR ucast b) 0 bs"

definition word_bytes :: "u32 \<Rightarrow> byte list" where
  "word_bytes w = [ucast (drop_bit 24 w), ucast (drop_bit 16 w), ucast (drop_bit 8 w), ucast w]"

definition len_bytes :: "nat \<Rightarrow> byte list" where
  "len_bytes n = (let w = (of_nat n :: 64 word) in map (\<lambda>i. ucast (drop_bit (8 * (7 - i)) w)) [0..<8])"

definition pad :: "byte list \<Rightarrow> byte list" where
  "pad m = m @ [0x80] @ replicate ((119 - length m mod 64) mod 64) 0 @ len_bytes (8 * length m)"

definition chunks :: "nat \<Rightarrow> 'a list \<Rightarrow> 'a list list" where
  "chunks k xs = map (\<lambda>i. take k (drop (k * i) xs)) [0..<length xs div k]"

fun extend :: "nat \<Rightarrow> u32 list \<Rightarrow> u32 list" where
  "extend 0 w = w"
| "extend (Suc k) w =
     (let j = length w in
      extend k (w @ [w ! (j - 16) + ssig0 (w ! (j - 15)) + w ! (j - 7) + ssig1 (w ! (j - 2))]))"

fun round256 :: "sha_state \<Rightarrow> u32 \<times> u32 \<Rightarrow> sha_state" where
  "round256 (a, b, c, d, e, f, g, h) (k, w) =
     (let t1 = h + bsig1 e + Ch e f g + k + w;
          t2 = bsig0 a + Maj a b c
      in (t1 + t2, a, b, c, d + t1, e, f, g))"

fun add_state :: "sha_state \<Rightarrow> sha_state \<Rightarrow> sha_state" where
  "add_state (a, b, c, d, e, f, g, h) (a', b', c', d', e', f', g', h') =
     (a + a', b + b', c + c', d + d', e + e', f + f', g + g', h + h')"

definition compress :: "sha_state \<Rightarrow> byte list \<Rightarrow> sha_state" where
  "compress s block =
     add_state s (foldl round256 s (zip K256 (extend 48 (map be32 (chunks 4 block)))))"

fun state_words :: "sha_state \<Rightarrow> u32 list" where
  "state_words (a, b, c, d, e, f, g, h) = [a, b, c, d, e, f, g, h]"

definition sha256 :: "byte list \<Rightarrow> byte list" where
  "sha256 m = concat (map word_bytes (state_words (foldl compress H256 (chunks 64 (pad m)))))"

text \<open>\<open>str.encode()\<close>: UTF-8 of the code points 0..255 (one byte below 128, two above).\<close>

definition utf8_char :: "char \<Rightarrow> byte list" where
  "utf8_char c = (let n = (of_char c :: nat) in
     if n < 128 then [of_nat n] else [of_nat (192 + n div 64), of_nat (128 + n mod 64)])"

definition str_encode :: "string \<Rightarrow> byte list" where
  "str_encode s = concat (map utf8_char s)"

subsection \<open>Dates and times\<close>

text \<open>
  A \<open>datetime\<close> is a count of microseconds since 1970-01-01T00:00:00, either aware (UTC)
  or naive. The type holds the instants from 0001-01-01T00:00:00 to
  9999-12-31T23:59:59.999999; arithmetic that leaves this range raises \<open>OverflowError\<close>.
\<close>

datatype datetime = Aware int | Naive int

definition dt_min :: int where
  "dt_min = - 62135596800000000"

definition dt_max :: int where
  "dt_max = 253402300799999999"

text \<open>\<open>d + timedelta(seconds=s)\<close>.\<close>

fun add_seconds :: "datetime \<Rightarrow> int \<Rightarrow> exn + datetime" where
  "add_seconds (Aware t) s =
     (let r = t + s * 1000000 in
      if dt_min \<le> r \<and> r \<le> dt_max then Inr (Aware r) else Inl OverflowError)"
| "add_seconds (Naive t) s =
     (let r = t + s * 1000000 in
      if dt_min \<le> r \<and> r \<le> dt_max then Inr (Naive r) else Inl OverflowError)"

text \<open>\<open>a < b\<close>: comparing an aware with a naive \<open>datetime\<close> is a \<open>TypeError\<close>.\<close>

fun dt_less :: "datetime \<Rightarrow> datetime \<Rightarrow> exn + bool" where
  "dt_less (Aware a) (Aware b) = Inr (a < b)"
| "dt_less (Naive a) (Naive b) = Inr (a < b)"
| "dt_less _ _ = Inl TypeError"

section \<open>External libraries\<close>

text \<open>
  The third-party and standard-library calls whose code is not part of DeafAuth are
  parameters of the model: pyseto's v4.local \<open>encode\<close> (with the fresh nonce it draws) and
  \<open>decode\<close> (which raises on a token it cannot authenticate and decrypt, and returns the
  payload as bytes, or as an object when a deserializer is set), \<open>bytes.decode('utf-8')\<close>,
  \<open>json.loads\<close>, \<open>datetime.isoformat\<close> and \<open>datetime.fromisoformat\<close>, and werkzeug's
  \<open>generate_password_hash\<close> (with its random salt) and \<open>check_password_hash\<close>.
\<close>

record paseto_key =
  key_version :: nat
  key_purpose :: string
  key_material :: "byte list"

datatype token_payload = PBytes "byte list" | PObject json

record lib =
  pyseto_encode :: "paseto_key \<Rightarrow> json \<Rightarrow> nat \<Rightarrow> string"
  pyseto_decode :: "paseto_key \<Rightarrow> string \<Rightarrow> exn + token_payload"
  bytes_decode :: "byte list \<Rightarrow> exn + string"
  json_loads :: "string \<Rightarrow> exn + json"
  isoformat :: "datetime \<Rightarrow> string"
  fromisoformat :: "string \<Rightarrow> exn + datetime"
  generate_password_hash :: "string \<Rightarrow> nat \<Rightarrow> string"
  check_password_hash :: "string \<Rightarrow> string \<Rightarrow> bool"

text \<open>
  What a round trip relies on. Under the key \<open>k\<close>, pyseto decrypts a token it encrypted
  to the bytes of the payload, and these parse back to the payload, for every payload of the
  three string claims and every nonce; and \<open>fromisoformat\<close> reads back what
  \<open>isoformat\<close> wrote.
\<close>

definition claims_round_trip :: "lib \<Rightarrow> paseto_key \<Rightarrow> bool" where
  "claims_round_trip L k =
     (\<forall>s e i nonce.
        case pyseto_decode L k
               (pyseto_encode L k
                  (JDict [(''sub'', JStr s), (''exp'', JStr e), (''iat'', JStr i)]) nonce) of
          Inl err \<Rightarrow> False
        | Inr (PObject obj) \<Rightarrow> False
        | Inr (PBytes bs) \<Rightarrow>
            (case bytes_decode L bs of
               Inl err \<Rightarrow> False
             | Inr chars \<Rightarrow>
                 json_loads L chars =
                   Inr (JDict [(''sub'', JStr s), (''exp'', JStr e), (''iat'', JStr i)])))"

definition iso_round_trip :: "lib \<Rightarrow> bool" where
  "iso_round_trip L = (\<forall>d. fromisoformat L (isoformat L d) = Inr d)"

section \<open>deafauth/auth.py\<close>

text \<open>The application configuration: a mapping from names to strings.\<close>

type_synonym config = "string \<Rightarrow> string option"

text \<open>\<open>get_paseto_key\<close>: the SHA-256 digest of the configured secret, as a v4.local key.\<close>

definition get_paseto_key :: "config \<Rightarrow> paseto_key" where
  "get_paseto_key cfg =
     (let secret_key = (case cfg ''SECRET_KEY'' of
                          None \<Rightarrow> ''dev-secret-key-change-in-production''
                        | Some s \<Rightarrow> s);
          key_bytes = sha256 (str_encode secret_key)
      in \<lparr>key_version = 4, key_purpose = ''local'', key_material = key_bytes\<rparr>)"

text \<open>The payload of a token: subject, expiry and time of issue, all as strings.\<close>

definition token_claims :: "lib \<Rightarrow> int \<Rightarrow> datetime \<Rightarrow> datetime \<Rightarrow> json" where
  "token_claims L user_id exp iat =
     JDict [(''sub'', JStr (str_int user_id)),
            (''exp'', JStr (isoformat L exp)),
            (''iat'', JStr (isoformat L iat))]"

text \<open>
  \<open>generate_token\<close>: \<open>now1\<close> and \<open>now2\<close> are the two readings of the clock, \<open>nonce\<close> the
  random material of the encryption.
\<close>

definition generate_token :: "lib \<Rightarrow> config \<Rightarrow> int \<Rightarrow> int \<Rightarrow> nat \<Rightarrow> int \<Rightarrow> int \<Rightarrow> exn + string" where
  "generate_token L cfg now1 now2 nonce user_id expires_in =
     (let key = get_paseto_key cfg in
      bind_exn (add_seconds (Aware now1) expires_in) (\<lambda>exp.
        let payload = token_claims L user_id exp (Aware now2)
        in Inr (pyseto_encode L key payload nonce)))"

text \<open>\<open>datetime.fromisoformat(x)\<close> of a JSON value: only a \<open>str\<close> is accepted.\<close>

fun fromisoformat_json :: "lib \<Rightarrow> json \<Rightarrow> exn + datetime" where
  "fromisoformat_json L (JStr s) = fromisoformat L s"
| "fromisoformat_json L _ = Inl TypeError"

text \<open>
  The \<open>try\<close> block of \<open>verify_token\<close>, in two parts: the token is decrypted and its
  payload parsed; then the expiry is read and compared with the clock.
\<close>

definition decode_payload :: "lib \<Rightarrow> config \<Rightarrow> string \<Rightarrow> exn + json" where
  "decode_payload L cfg token =
     (let key = get_paseto_key cfg in
      bind_exn (pyseto_decode L key token) (\<lambda>payload_bytes.
        case payload_bytes of
          PBytes bs \<Rightarrow> bind_exn (bytes_decode L bs) (json_loads L)
        | PObject obj \<Rightarrow> Inr obj))"

definition verify_token_try :: "lib \<Rightarrow> config \<Rightarrow> int \<Rightarrow> string \<Rightarrow> exn + json option" where
  "verify_token_try L cfg now token =
     bind_exn (decode_payload L cfg token) (\<lambda>payload.
     bind_exn (getitem payload ''exp'') (\<lambda>e.
     bind_exn (fromisoformat_json L e) (\<lambda>exp.
     bind_exn (dt_less exp (Aware now)) (\<lambda>expired.
       if expired then Inr None else Inr (Some payload)))))"

text \<open>\<open>verify_token\<close>: \<open>except Exception\<close> turns every exception of the body into \<open>None\<close>.\<close>

definition verify_token :: "lib \<Rightarrow> config \<Rightarrow> int \<Rightarrow> string \<Rightarrow> exn + json option" where
  "verify_token L cfg now token =
     (case verify_token_try L cfg now token of
        Inl e \<Rightarrow> Inr None
      | Inr r \<Rightarrow> Inr r)"

text \<open>A Flask response: the JSON body and the status code.\<close>

type_synonym response = "json \<times> nat"

text \<open>
  The first part of \<open>decorated\<close>: the token read from the \<open>Authorization\<close> header, if any.
\<close>

definition bearer_token :: "string option \<Rightarrow> string option" where
  "bearer_token auth_header =
     (case auth_header of
        None \<Rightarrow> None
      | Some h \<Rightarrow>
          if h = [] then None
          else (case split h of
                  [p0, p1] \<Rightarrow> if lower p0 = ''bearer'' then Some p1 else None
                | _ \<Rightarrow> None))"

text \<open>
  The rest of \<open>decorated\<close>, once a token was read: the token is verified and the handler
  \<open>f\<close> called with the subject. \<open>not payload\<close> holds for \<open>None\<close> and for an empty object.
\<close>

definition decorated_with_token ::
  "(int \<Rightarrow> exn + response) \<Rightarrow> lib \<Rightarrow> config \<Rightarrow> int \<Rightarrow> string \<Rightarrow> exn + response" where
  "decorated_with_token f L cfg now token =
     bind_exn (verify_token L cfg now token) (\<lambda>payload.
       case payload of
         None \<Rightarrow> Inr (JDict [(''error'', JStr ''Token is invalid or expired'')], 401)
       | Some p \<Rightarrow>
           if \<not> truthy p
           then Inr (JDict [(''error'', JStr ''Token is invalid or expired'')], 401)
           else bind_exn (getitem p ''sub'') (\<lambda>sub.
                bind_exn (int_json sub) (\<lambda>user_id. f user_id)))"

text \<open>
  \<open>token_required f\<close>: the decorated handler, given the request's \<open>Authorization\<close> header.
  \<open>not token\<close> holds for \<open>None\<close> and for the empty string.
\<close>

definition token_required ::
  "(int \<Rightarrow> exn + response) \<Rightarrow> lib \<Rightarrow> config \<Rightarrow> int \<Rightarrow> string option \<Rightarrow> exn + response" where
  "token_required f L cfg now auth_header =
     (case bearer_token auth_header of
        None \<Rightarrow> Inr (JDict [(''error'', JStr ''Token is missing'')], 401)
      | Some token \<Rightarrow>
          if token = [] then Inr (JDict [(''error'', JStr ''Token is missing'')], 401)
          else decorated_with_token f L cfg now token)"

section \<open>deafauth/models.py\<close>

text \<open>A row of the \<open>users\<close> table; the table is the list of its rows in insertion order.\<close>

record user =
  uid :: int
  email :: string
  password_hash :: string
  is_verified :: bool
  verification_token :: "string option"
  created_at :: "datetime option"
  updated_at :: "datetime option"

type_synonym store = "user list"

definition to_dict :: "lib \<Rightarrow> user \<Rightarrow> json" where
  "to_dict L u =
     JDict [(''id'', JNum (uid u)),
            (''email'', JStr (email u)),
            (''is_verified'', JBool (is_verified u)),
            (''created_at'', (case created_at u of
                                None \<Rightarrow> JNull
                              | Some d \<Rightarrow> JStr (isoformat L d)))]"

text \<open>
  The queries the routes run: \<open>filter_by(...).first()\<close> and \<open>query.get(id)\<close>. An id
  outside the 64-bit range cannot be bound to an SQLite integer: \<open>OverflowError\<close>.
\<close>

definition first_by_email :: "store \<Rightarrow> string \<Rightarrow> user option" where
  "first_by_email st e = find (\<lambda>u. email u = e) st"

definition first_by_verification_token :: "store \<Rightarrow> string \<Rightarrow> user option" where
  "first_by_verification_token st t = find (\<lambda>u. verification_token u = Some t) st"

definition query_get :: "store \<Rightarrow> int \<Rightarrow> exn + user option" where
  "query_get st i =
     (if i < - (2 ^ 63) \<or> 2 ^ 63 \<le> i then Inl OverflowError
      else Inr (find (\<lambda>u. uid u = i) st))"

text \<open>
  \<open>db.session.add(user); db.session.commit()\<close>: the store assigns the next id; the commit
  raises when the database is unavailable (\<open>db_up\<close> false) or when the \<open>unique=True\<close>
  constraint on \<open>email\<close> is violated. Nothing is written when it raises.
\<close>

definition next_id :: "store \<Rightarrow> int" where
  "next_id st = fold max (map uid st) 0 + 1"

definition commit_insert :: "bool \<Rightarrow> store \<Rightarrow> user \<Rightarrow> exn + store" where
  "commit_insert db_up st u =
     (if \<not> db_up then Inl OperationalError
      else if first_by_email st (email u) \<noteq> None then Inl IntegrityError
      else Inr (st @ [u\<lparr>uid := next_id st\<rparr>]))"

text \<open>\<open>db.session.commit()\<close> after the fields of the row \<open>u\<close> were assigned.\<close>

definition commit_update :: "bool \<Rightarrow> store \<Rightarrow> user \<Rightarrow> exn + store" where
  "commit_update db_up st u =
     (if \<not> db_up then Inl OperationalError
      else Inr (map (\<lambda>v. if uid v = uid u then u else v) st))"

section \<open>deafauth/routes.py\<close>

text \<open>
  \<open>is_valid_email\<close>: \<open>re.match\<close> of
  \<^verbatim>\<open>^[a-zA-Z0-9._%+-]+@[a-zA-Z0-9.-]+\.[a-zA-Z]{2,}$\<close>.
  The string is a local part, \<open>@\<close>, a domain, a dot and a top-level part, with the at sign at
  index \<open>i\<close> and the dot at index \<open>j\<close>; \<open>$\<close> also matches before one final newline.
\<close>

definition is_alpha :: "char \<Rightarrow> bool" where
  "is_alpha c = (let n = (of_char c :: nat) in (65 \<le> n \<and> n \<le> 90) \<or> (97 \<le> n \<and> n \<le> 122))"

definition is_local_char :: "char \<Rightarrow> bool" where
  "is_local_char c = (is_alpha c \<or> is_digit c \<or> c \<in> set ''._%+-'')"

definition is_domain_char :: "char \<Rightarrow> bool" where
  "is_domain_char c = (is_alpha c \<or> is_digit c \<or> c \<in> set ''.-'')"

definition email_pattern :: "string \<Rightarrow> bool" where
  "email_pattern s =
     list_ex (\<lambda>i. list_ex (\<lambda>j.
         s ! i = CHR ''@'' \<and> s ! j = CHR ''.''
       \<and> 0 < i \<and> list_all is_local_char (take i s)
       \<and> i + 1 < j \<and> list_all is_domain_char (take (j - (i + 1)) (drop (i + 1) s))
       \<and> 2 \<le> length s - (j + 1) \<and> list_all is_alpha (drop (j + 1) s))
       [0..<length s]) [0..<length s]"

definition is_valid_email :: "string \<Rightarrow> bool" where
  "is_valid_email e =
     (email_pattern e \<or> (e \<noteq> [] \<and> last e = CHR 0x0A \<and> email_pattern (butlast e)))"

text \<open>\<open>x.strip().lower()\<close> and \<open>len(x)\<close> of a JSON value.\<close>

fun strip_lower :: "json \<Rightarrow> exn + string" where
  "strip_lower (JStr s) = Inr (lower (strip s))"
| "strip_lower _ = Inl AttributeError"

fun len_json :: "json \<Rightarrow> exn + nat" where
  "len_json (JStr s) = Inr (length s)"
| "len_json (JList xs) = Inr (length xs)"
| "len_json (JDict kvs) = Inr (length kvs)"
| "len_json _ = Inl TypeError"

text \<open>A password handed to werkzeug must be a \<open>str\<close>.\<close>

fun password_str :: "json \<Rightarrow> exn + string" where
  "password_str (JStr s) = Inr s"
| "password_str _ = Inl AttributeError"

text \<open>\<open>data.get('email', '').strip().lower()\<close>.\<close>

definition normalized_email :: "json \<Rightarrow> exn + string" where
  "normalized_email data = bind_exn (dict_get data ''email'' (JStr [])) strip_lower"

text \<open>
  \<open>signup\<close>, first part: validation and the look-up of an existing user. The result is
  an early response, or the normalised email and the password to register.
\<close>

definition signup_check :: "store \<Rightarrow> json \<Rightarrow> exn + (response + string \<times> json)" where
  "signup_check st data =
     (if \<not> truthy data then Inr (Inl (JDict [(''error'', JStr ''No data provided'')], 400))
      else
        bind_exn (normalized_email data) (\<lambda>email.
        bind_exn (dict_get data ''password'' (JStr [])) (\<lambda>password.
          if email = [] \<or> \<not> is_valid_email email
          then Inr (Inl (JDict [(''error'', JStr ''Valid email is required'')], 400))
          else if \<not> truthy password
          then Inr (Inl (JDict [(''error'', JStr ''Password must be at least 8 characters'')], 400))
          else bind_exn (len_json password) (\<lambda>n.
            if n < 8
            then Inr (Inl (JDict [(''error'', JStr ''Password must be at least 8 characters'')], 400))
            else (case first_by_email st email of
                    Some existing_user \<Rightarrow>
                      Inr (Inl (JDict [(''error'', JStr ''Email already registered'')], 409))
                  | None \<Rightarrow> Inr (Inr (email, password)))))))"

text \<open>
  \<open>signup\<close>, second part: the new row and its commit. \<open>vtoken\<close> is the value of
  \<open>secrets.token_urlsafe(32)\<close>, \<open>salt\<close> the salt of the password hash, \<open>now\<close> the clock.
\<close>

definition signup_create ::
  "lib \<Rightarrow> string \<Rightarrow> nat \<Rightarrow> int \<Rightarrow> bool \<Rightarrow> store \<Rightarrow> string \<times> json \<Rightarrow> (exn + response) \<times> store" where
  "signup_create L vtoken salt now db_up st ep =
     (case password_str (snd ep) of
        Inl e \<Rightarrow> (Inl e, st)
      | Inr pw \<Rightarrow>
          (let verification_token = vtoken;
               user = \<lparr>uid = 0, email = fst ep,
                       password_hash = generate_password_hash L pw salt,
                       is_verified = False,
                       verification_token = Some verification_token,
                       created_at = Some (Naive now), updated_at = Some (Naive now)\<rparr>
           in case commit_insert db_up st user of
                Inl e \<Rightarrow> (Inr (JDict [(''error'', JStr ''Failed to create user'')], 500), st)
              | Inr st' \<Rightarrow>
                  (Inr (JDict [(''message'', JStr ''User created successfully''),
                               (''user'', to_dict L (last st')),
                               (''verification_token'', JStr verification_token),
                               (''note'', JStr ''In production, verification token would be sent via email'')],
                        201), st')))"

definition signup ::
  "lib \<Rightarrow> string \<Rightarrow> nat \<Rightarrow> int \<Rightarrow> bool \<Rightarrow> store \<Rightarrow> json \<Rightarrow> (exn + response) \<times> store" where
  "signup L vtoken salt now db_up st data =
     (case signup_check st data of
        Inl e \<Rightarrow> (Inl e, st)
      | Inr (Inl r) \<Rightarrow> (Inr r, st)
      | Inr (Inr ep) \<Rightarrow> signup_create L vtoken salt now db_up st ep)"

text \<open>\<open>verify_email\<close>: the route \<open>/verify/<token>\<close>.\<close>

definition verify_email :: "lib \<Rightarrow> int \<Rightarrow> bool \<Rightarrow> store \<Rightarrow> string \<Rightarrow> response \<times> store" where
  "verify_email L now db_up st token =
     (case first_by_verification_token st token of
        None \<Rightarrow> ((JDict [(''error'', JStr ''Invalid verification token'')], 400), st)
      | Some user \<Rightarrow>
          if is_verified user
          then ((JDict [(''message'', JStr ''Email already verified''),
                        (''user'', to_dict L user)], 200), st)
          else
            (let user' = user\<lparr>is_verified := True, verification_token := None,
                               updated_at := Some (Naive now)\<rparr>
             in case commit_update db_up st user' of
                  Inl e \<Rightarrow> ((JDict [(''error'', JStr ''Failed to verify email'')], 500), st)
                | Inr st' \<Rightarrow>
                    ((JDict [(''message'', JStr ''Email verified successfully''),
                             (''user'', to_dict L user')], 200), st')))"

text \<open>\<open>login\<close>: the token lives for the default 3600 seconds.\<close>

definition login :: "lib \<Rightarrow> config \<Rightarrow> int \<Rightarrow> int \<Rightarrow> nat \<Rightarrow> store \<Rightarrow> json \<Rightarrow> exn + response" where
  "login L cfg now1 now2 nonce st data =
     (if \<not> truthy data then Inr (JDict [(''error'', JStr ''No data provided'')], 400)
      else
        bind_exn (normalized_email data) (\<lambda>email.
        bind_exn (dict_get data ''password'' (JStr [])) (\<lambda>password.
          if email = [] \<or> \<not> truthy password
          then Inr (JDict [(''error'', JStr ''Email and password are required'')], 400)
          else
            (case first_by_email st email of
               None \<Rightarrow> Inr (JDict [(''error'', JStr ''Invalid email or password'')], 401)
             | Some user \<Rightarrow>
                 bind_exn (password_str password) (\<lambda>pw.
                   if \<not> check_password_hash L (password_hash user) pw
                   then Inr (JDict [(''error'', JStr ''Invalid email or password'')], 401)
                   else bind_exn (generate_token L cfg now1 now2 nonce (uid user) 3600) (\<lambda>token.
                     Inr (JDict [(''message'', JStr ''Login successful''),
                                 (''token'', JStr token),
                                 (''user'', to_dict L user)], 200)))))))"

text \<open>\<open>get_current_user\<close>: the route \<open>/me\<close>, behind \<open>token_required\<close>.\<close>

definition get_current_user_body :: "lib \<Rightarrow> store \<Rightarrow> int \<Rightarrow> exn + response" where
  "get_current_user_body L st user_id =
     bind_exn (query_get st user_id) (\<lambda>found.
       case found of
         None \<Rightarrow> Inr (JDict [(''error'', JStr ''User not found'')], 404)
       | Some user \<Rightarrow> Inr (JDict [(''user'', to_dict L user)], 200))"

definition get_current_user :: "lib \<Rightarrow> config \<Rightarrow> int \<Rightarrow> store \<Rightarrow> string option \<Rightarrow> exn + response" where
  "get_current_user L cfg now st auth_header =
     token_required (get_current_user_body L st) L cfg now auth_header"

section \<open>Two signup requests in flight\<close>

text \<open>
  A signup request reads the store when it looks for an existing user and writes it when it
  commits; between the two steps another request may run. A request is at its start, past
  its check, or done with an outcome. A schedule says which of two requests takes the next
  step (\<open>True\<close>: the first one).
\<close>

datatype request = Start json | Checked "string \<times> json" | Done "exn + response"

record inputs =
  in_vtoken :: string
  in_salt :: nat
  in_now :: int
  in_db_up :: bool

definition signup_step :: "lib \<Rightarrow> inputs \<Rightarrow> store \<Rightarrow> request \<Rightarrow> request \<times> store" where
  "signup_step L i st r =
     (case r of
        Start data \<Rightarrow>
          (case signup_check st data of
             Inl e \<Rightarrow> (Done (Inl e), st)
           | Inr (Inl resp) \<Rightarrow> (Done (Inr resp), st)
           | Inr (Inr ep) \<Rightarrow> (Checked ep, st))
      | Checked ep \<Rightarrow>
          (case signup_create L (in_vtoken i) (in_salt i) (in_now i) (in_db_up i) st ep of
             (out, st') \<Rightarrow> (Done out, st'))
      | Done out \<Rightarrow> (Done out, st))"

fun run_signups ::
  "lib \<Rightarrow> inputs \<Rightarrow> inputs \<Rightarrow> bool list \<Rightarrow> store \<times> request \<times> request \<Rightarrow> store \<times> request \<times> request" where
  "run_signups L ia ib [] s = s"
| "run_signups L ia ib (first # sched) (st, a, b) =
     (if first
      then (case signup_step L ia st a of (a', st') \<Rightarrow> run_signups L ia ib sched (st', a', b))
      else (case signup_step L ib st b of (b', st') \<Rightarrow> run_signups L ia ib sched (st', a, b')))"

text \<open>A request succeeded when it is done with status 201.\<close>

definition succeeded :: "request \<Rightarrow> bool" where
  "succeeded r = (case r of Done (Inr (body, status)) \<Rightarrow> status = 201 | _ \<Rightarrow> False)"

text \<open>
  The email a request in flight is about: \<open>req_email ne r\<close> says that the request \<open>r\<close>
  carries the normalised email \<open>ne\<close> (or the exception its normalisation raised).
\<close>

definition req_email :: "exn + string \<Rightarrow> request \<Rightarrow> bool" where
  "req_email ne r =
     (case r of
        Start data \<Rightarrow> normalized_email data = ne
      | Checked ep \<Rightarrow> ne = Inr (fst ep)
      | Done out \<Rightarrow> True)"

section \<open>An example library and example data\<close>

text \<open>
  A small stand-in for the external libraries, to run the model on concrete requests: the
  token is the three claims in clear after the prefix, a time stamp is its count of
  microseconds after a letter for aware or naive, a password hash is the password after a
  prefix.
\<close>

definition ex_encode :: "paseto_key \<Rightarrow> json \<Rightarrow> nat \<Rightarrow> string" where
  "ex_encode key payload nonce =
     (case payload of
        JDict [(k1, JStr a), (k2, JStr b), (k3, JStr c)] \<Rightarrow> ''v4.local.'' @ a @ ''|'' @ b @ ''|'' @ c
      | _ \<Rightarrow> ''v4.local.'')"

definition ex_decode :: "paseto_key \<Rightarrow> string \<Rightarrow> exn + token_payload" where
  "ex_decode key token =
     (if take 9 token = ''v4.local.'' \<and> 9 < length token
      then Inr (PBytes (map (\<lambda>c. of_nat (of_char c)) (drop 9 token)))
      else Inl DecryptError)"

definition ex_bytes_decode :: "byte list \<Rightarrow> exn + string" where
  "ex_bytes_decode bs = Inr (map (\<lambda>b. char_of (unat b)) bs)"

fun fields_run :: "string \<Rightarrow> string \<Rightarrow> string list" where
  "fields_run w [] = [w]"
| "fields_run w (c # cs) = (if c = CHR ''|'' then w # fields_run [] cs else fields_run (w @ [c]) cs)"

definition ex_json_loads :: "string \<Rightarrow> exn + json" where
  "ex_json_loads s =
     (case fields_run [] s of
        [a, b, c] \<Rightarrow> Inr (JDict [(''sub'', JStr a), (''exp'', JStr b), (''iat'', JStr c)])
      | _ \<Rightarrow> Inl JSONDecodeError)"

definition ex_isoformat :: "datetime \<Rightarrow> string" where
  "ex_isoformat d = (case d of Aware t \<Rightarrow> CHR ''A'' # str_int t | Naive t \<Rightarrow> CHR ''N'' # str_int t)"

definition ex_fromisoformat :: "string \<Rightarrow> exn + datetime" where
  "ex_fromisoformat s =
     (case s of
        [] \<Rightarrow> Inl ValueError
      | c # r \<Rightarrow>
          (case int_str r of
             Inl e \<Rightarrow> Inl ValueError
           | Inr t \<Rightarrow>
               if c = CHR ''A'' then Inr (Aware t)
               else if c = CHR ''N'' then Inr (Naive t)
               else Inl ValueError))"

definition example_lib :: lib where
  "example_lib =
     \<lparr>pyseto_encode = ex_encode, pyseto_decode = ex_decode, bytes_decode = ex_bytes_decode,
      json_loads = ex_json_loads, isoformat = ex_isoformat, fromisoformat = ex_fromisoformat,
      generate_password_hash = (\<lambda>pw salt. ''plain:'' @ pw),
      check_password_hash = (\<lambda>h pw. h = ''plain:'' @ pw)\<rparr>"

definition example_config :: config where
  "example_config = (\<lambda>k. if k = ''SECRET_KEY'' then Some ''abc'' else None)"

definition example_user :: user where
  "example_user =
     \<lparr>uid = 1, email = ''a@b.com'', password_hash = ''plain:abcdefgh'', is_verified = False,
      verification_token = Some ''tok'', created_at = Some (Naive 0), updated_at = Some (Naive 0)\<rparr>"

definition example_data :: json where
  "example_data = JDict [(''email'', JStr '' A@b.com ''), (''password'', JStr ''abcdefgh'')]"

definition example_inputs :: inputs where
  "example_inputs = \<lparr>in_vtoken = ''tok'', in_salt = 0, in_now = 0, in_db_up = True\<rparr>"

text \<open>
  A second stand-in whose tokens depend on the key: a token is the prefix, then the key
  bytes and the three claims, each field written as its length, a colon and its characters.
  Decryption refuses a token made under another key.
\<close>

definition enc_field :: "string \<Rightarrow> string" where
  "enc_field a = digits (length a) @ CHR '':'' # a"

definition dec_field :: "string \<Rightarrow> (string \<times> string) option" where
  "dec_field s =
     (case dropWhile is_digit s of
        [] \<Rightarrow> None
      | c # r \<Rightarrow>
          if c = CHR '':'' then
            (case parse_digits 0 False (takeWhile is_digit s) of
               None \<Rightarrow> None
             | Some n \<Rightarrow> if n \<le> length r then Some (take n r, drop n r) else None)
          else None)"

definition key_tag :: "paseto_key \<Rightarrow> string" where
  "key_tag k = map (\<lambda>b. char_of (unat b)) (key_material k)"

definition keyed_encode :: "paseto_key \<Rightarrow> json \<Rightarrow> nat \<Rightarrow> string" where
  "keyed_encode k payload nonce =
     (case payload of
        JDict [(k1, JStr a), (k2, JStr b), (k3, JStr c)] \<Rightarrow>
          ''v4.local.'' @ enc_field (key_tag k) @ enc_field a @ enc_field b @ enc_field c
      | _ \<Rightarrow> ''v4.local.'')"

definition keyed_decode :: "paseto_key \<Rightarrow> string \<Rightarrow> exn + token_payload" where
  "keyed_decode k token =
     (if take 9 token = ''v4.local.'' then
        (case dec_field (drop 9 token) of
           None \<Rightarrow> Inl DecryptError
         | Some (tag, body) \<Rightarrow>
             if tag = key_tag k then Inr (PBytes (map (\<lambda>c. of_nat (of_char c)) body))
             else Inl DecryptError)
      else Inl DecryptError)"

definition keyed_json_loads :: "string \<Rightarrow> exn + json" where
  "keyed_json_loads chars =
     (case dec_field chars of
        None \<Rightarrow> Inl JSONDecodeError
      | Some (a, r1) \<Rightarrow>
          (case dec_field r1 of
             None \<Rightarrow> Inl JSONDecodeError
           | Some (b, r2) \<Rightarrow>
               (case dec_field r2 of
                  None \<Rightarrow> Inl JSONDecodeError
                | Some (c, r3) \<Rightarrow>
                    if r3 = []
                    then Inr (JDict [(''sub'', JStr a), (''exp'', JStr b), (''iat'', JStr c)])
                    else Inl JSONDecodeError)))"

definition keyed_lib :: lib where
  "keyed_lib =
     \<lparr>pyseto_encode = keyed_encode, pyseto_decode = keyed_decode, bytes_decode = ex_bytes_decode,
      json_loads = keyed_json_loads, isoformat = ex_isoformat, fromisoformat = ex_fromisoformat,
      generate_password_hash = (\<lambda>pw salt. ''plain:'' @ pw),
      check_password_hash = (\<lambda>h pw. h = ''plain:'' @ pw)\<rparr>"

section \<open>Properties of the string functions and of SHA-256\<close>

lemma split_run_nonempty: "p \<in> set (split_run w cs) \<Longrightarrow> p \<noteq> []"
proof (induction cs arbitrary: w)
  case Nil
  then show ?case by (cases "w = []") simp_all
next
  case (Cons c cs)
  show ?case
  proof (cases "is_space c")
    case True
    with Cons.prems have "p = w \<and> w \<noteq> [] \<or> p \<in> set (split_run [] cs)"
      by (cases "w = []") simp_all
    with Cons.IH show ?thesis by blast
  next
    case False
    with Cons.prems have "p \<in> set (split_run (w @ [c]) cs)" by simp
    then show ?thesis by (rule Cons.IH)
  qed
qed

lemma split_nonempty: "p \<in> set (split s) \<Longrightarrow> p \<noteq> []"
  unfolding split_def by (rule split_run_nonempty)

lemma lower_Bearer: "lower ''Bearer'' = ''bearer''"
  by code_simp

lemma split_Nil: "split [] = []"
  by (simp add: split_def)

lemma bearer_token_Some_iff:
  "bearer_token auth_header = Some t \<longleftrightarrow>
     (\<exists>h p. auth_header = Some h \<and> split h = [p, t] \<and> lower p = lower ''Bearer'')"
proof (cases auth_header)
  case None
  then show ?thesis by (simp add: bearer_token_def)
next
  case (Some h)
  show ?thesis
  proof (cases "h = []")
    case True
    with Some show ?thesis by (simp add: bearer_token_def split_Nil)
  next
    case False
    with Some have "bearer_token auth_header =
        (case split h of [p0, p1] \<Rightarrow> if lower p0 = ''bearer'' then Some p1 else None | _ \<Rightarrow> None)"
      by (simp add: bearer_token_def)
    with Some show ?thesis
      unfolding lower_Bearer by (simp split: list.splits)
  qed
qed

lemma bearer_token_nonempty: "bearer_token auth_header = Some t \<Longrightarrow> t \<noteq> []"
proof -
  assume "bearer_token auth_header = Some t"
  then obtain h p where "split h = [p, t]"
    unfolding bearer_token_Some_iff by blast
  then have "t \<in> set (split h)" by simp
  then show ?thesis by (rule split_nonempty)
qed

text \<open>The digest of \<open>abc\<close>, as the standard gives it.\<close>

lemma sha256_abc:
  "sha256 (str_encode ''abc'') =
     [186, 120, 22, 191, 143, 1, 207, 234, 65, 65, 64, 222, 93, 174, 34, 35,
      176, 3, 97, 163, 150, 23, 122, 156, 180, 16, 255, 97, 242, 0, 21, 173]"
  by code_simp

lemma length_word_bytes: "length (word_bytes w) = 4"
  by (simp add: word_bytes_def)

lemma length_state_words: "length (state_words s) = 8"
  by (cases s) auto

lemma length_concat_word_bytes: "length (concat (map word_bytes ws)) = 4 * length ws"
  by (induction ws) (simp_all add: length_word_bytes)

lemma length_sha256: "length (sha256 m) = 32"
  by (simp add: sha256_def length_concat_word_bytes length_state_words)

section \<open>Key derivation\<close>

text \<open>
  C8. For every configured secret, the key of \<open>get_paseto_key\<close> is the version 4, purpose
  local key whose material is the SHA-256 digest of the UTF-8 bytes of the secret: it depends
  on the secret only, and it is exactly 32 bytes long.
\<close>

theorem get_paseto_key_derivation:
  "cfg ''SECRET_KEY'' = Some secret \<longrightarrow>
     get_paseto_key cfg =
       \<lparr>key_version = 4, key_purpose = ''local'', key_material = sha256 (str_encode secret)\<rparr>
     \<and> length (key_material (get_paseto_key cfg)) = 32"
  by (simp add: get_paseto_key_def length_sha256)

theorem get_paseto_key_derivation_witness:
  "example_config ''SECRET_KEY'' = Some ''abc''
   \<and> get_paseto_key example_config =
       \<lparr>key_version = 4, key_purpose = ''local'',
        key_material =
          [186, 120, 22, 191, 143, 1, 207, 234, 65, 65, 64, 222, 93, 174, 34, 35,
           176, 3, 97, 163, 150, 23, 122, 156, 180, 16, 255, 97, 242, 0, 21, 173]\<rparr>
   \<and> length (key_material (get_paseto_key example_config)) = 32"
proof -
  have h: "example_config ''SECRET_KEY'' = Some ''abc''"
    by (simp add: example_config_def)
  from h get_paseto_key_derivation [of example_config "''abc''"]
  have "get_paseto_key example_config =
       \<lparr>key_version = 4, key_purpose = ''local'', key_material = sha256 (str_encode ''abc'')\<rparr>
     \<and> length (key_material (get_paseto_key example_config)) = 32"
    by blast
  with h show ?thesis by (simp only: sha256_abc) simp
qed

section \<open>The request guard\<close>

lemma split_example_bearer: "split ''bEaReR v4.local.x'' = [''bEaReR'', ''v4.local.x'']"
  by code_simp

lemma split_example_basic: "split ''Basic v4.local.x'' = [''Basic'', ''v4.local.x'']"
  by code_simp

lemma lower_examples: "lower ''bEaReR'' = lower ''Bearer''" "lower ''Basic'' \<noteq> lower ''Bearer''"
  by code_simp+


text \<open>
  C5. The guard reads a bearer token from the \<open>Authorization\<close> header exactly when the
  header splits into two whitespace-separated parts whose first is \<open>Bearer\<close> in any
  letter case; it then goes on with the second part as the token. Every other header, and a
  missing one, is answered with 401 and \<open>Token is missing\<close>.
\<close>

theorem guard_header_parsing:
  "(\<forall>h p t. auth_header = Some h \<and> split h = [p, t] \<and> lower p = lower ''Bearer'' \<longrightarrow>
       bearer_token auth_header = Some t
     \<and> token_required f L cfg now auth_header = decorated_with_token f L cfg now t)
   \<and> ((\<nexists>h p t. auth_header = Some h \<and> split h = [p, t] \<and> lower p = lower ''Bearer'') \<longrightarrow>
       bearer_token auth_header = None
     \<and> token_required f L cfg now auth_header = Inr (JDict [(''error'', JStr ''Token is missing'')], 401))"
proof (intro conjI allI impI)
  fix h p t
  assume a: "auth_header = Some h \<and> split h = [p, t] \<and> lower p = lower ''Bearer''"
  then show b: "bearer_token auth_header = Some t"
    unfolding bearer_token_Some_iff by blast
  from b have "t \<noteq> []" by (rule bearer_token_nonempty)
  with b show "token_required f L cfg now auth_header = decorated_with_token f L cfg now t"
    by (simp add: token_required_def)
next
  assume n: "\<nexists>h p t. auth_header = Some h \<and> split h = [p, t] \<and> lower p = lower ''Bearer''"
  show b: "bearer_token auth_header = None"
  proof (cases "bearer_token auth_header")
    case None
    then show ?thesis .
  next
    case (Some t)
    then show ?thesis using n unfolding bearer_token_Some_iff by blast
  qed
  then show "token_required f L cfg now auth_header = Inr (JDict [(''error'', JStr ''Token is missing'')], 401)"
    by (simp add: token_required_def)
qed

theorem guard_header_parsing_witness:
  "(bearer_token (Some ''bEaReR v4.local.x'') = Some ''v4.local.x''
    \<and> token_required (get_current_user_body example_lib [example_user]) example_lib example_config 0
         (Some ''bEaReR v4.local.x'')
       = decorated_with_token (get_current_user_body example_lib [example_user]) example_lib
           example_config 0 ''v4.local.x'')
   \<and> (bearer_token (Some ''Basic v4.local.x'') = None
    \<and> token_required (get_current_user_body example_lib [example_user]) example_lib example_config 0
         (Some ''Basic v4.local.x'')
       = Inr (JDict [(''error'', JStr ''Token is missing'')], 401))"
proof -
  have h1: "Some ''bEaReR v4.local.x'' = Some ''bEaReR v4.local.x''
        \<and> split ''bEaReR v4.local.x'' = [''bEaReR'', ''v4.local.x'']
        \<and> lower ''bEaReR'' = lower ''Bearer''"
    by (simp add: split_example_bearer lower_examples)
  have h2: "\<nexists>h p t. Some ''Basic v4.local.x'' = Some h \<and> split h = [p, t] \<and> lower p = lower ''Bearer''"
    using lower_examples(2) by (auto simp: split_example_basic)
  from h1 guard_header_parsing
    [of "Some ''bEaReR v4.local.x''" "get_current_user_body example_lib [example_user]"
        example_lib example_config 0]
  have c1: "bearer_token (Some ''bEaReR v4.local.x'') = Some ''v4.local.x''
    \<and> token_required (get_current_user_body example_lib [example_user]) example_lib example_config 0
         (Some ''bEaReR v4.local.x'')
       = decorated_with_token (get_current_user_body example_lib [example_user]) example_lib
           example_config 0 ''v4.local.x''"
    by blast
  from h2 guard_header_parsing
    [of "Some ''Basic v4.local.x''" "get_current_user_body example_lib [example_user]"
        example_lib example_config 0]
  have c2: "bearer_token (Some ''Basic v4.local.x'') = None
    \<and> token_required (get_current_user_body example_lib [example_user]) example_lib example_config 0
         (Some ''Basic v4.local.x'')
       = Inr (JDict [(''error'', JStr ''Token is missing'')], 401)"
    by blast
  from c1 c2 show ?thesis by blast
qed

section \<open>Token verification\<close>

text \<open>
  C10. \<open>verify_token\<close> never raises: for every string it returns \<open>None\<close> or a payload,
  and a payload it returns is an object with a string under \<open>exp\<close>.
\<close>

theorem verify_token_total:
  "\<exists>r. verify_token L cfg now token = Inr r
       \<and> (r = None \<or> (\<exists>kvs e. r = Some (JDict kvs) \<and> map_of kvs ''exp'' = Some (JStr e)))"
proof (cases "verify_token_try L cfg now token")
  case (Inl e)
  then show ?thesis by (simp add: verify_token_def)
next
  case (Inr r)
  show ?thesis
  proof (cases r)
    case None
    with Inr show ?thesis by (simp add: verify_token_def)
  next
    case (Some p)
    from Inr Some obtain e x where g: "getitem p ''exp'' = Inr e" and f: "fromisoformat_json L e = Inr x"
      unfolding verify_token_try_def bind_exn_def
      by (auto split: sum.splits if_splits)
    from g obtain kvs where p: "p = JDict kvs" by (cases p) simp_all
    from f obtain s where e: "e = JStr s" by (cases e) simp_all
    from g p e have "map_of kvs ''exp'' = Some (JStr s)"
      by (simp split: option.splits)
    with Inr Some p show ?thesis by (simp add: verify_token_def)
  qed
qed

lemma verify_token_try_Some_iff:
  "verify_token_try L cfg now token = Inr (Some p) \<longleftrightarrow>
     decode_payload L cfg token = Inr p
   \<and> (\<exists>e x. getitem p ''exp'' = Inr e \<and> fromisoformat_json L e = Inr x
            \<and> dt_less x (Aware now) = Inr False)"
  unfolding verify_token_try_def bind_exn_def
  by (auto split: sum.splits if_splits)

lemma verify_token_Some_iff:
  "verify_token L cfg now token = Inr (Some p) \<longleftrightarrow> verify_token_try L cfg now token = Inr (Some p)"
  unfolding verify_token_def by (auto split: sum.splits)

lemma verify_token_None_iff:
  "verify_token L cfg now token = Inr None \<longleftrightarrow>
     (\<exists>e. verify_token_try L cfg now token = Inl e) \<or> verify_token_try L cfg now token = Inr None"
  unfolding verify_token_def by (auto split: sum.splits)

lemma verify_token_try_expired:
  assumes "decode_payload L cfg token = Inr payload"
    and "getitem payload ''exp'' = Inr e"
    and "fromisoformat_json L e = Inr x"
    and "dt_less x (Aware now) = Inr True"
  shows "verify_token_try L cfg now token = Inr None"
  using assms unfolding verify_token_try_def bind_exn_def by simp

lemma verify_token_try_naive:
  assumes "decode_payload L cfg token = Inr payload"
    and "getitem payload ''exp'' = Inr e"
    and "fromisoformat_json L e = Inr (Naive t)"
  shows "verify_token_try L cfg now token = Inl TypeError"
  using assms unfolding verify_token_try_def bind_exn_def by simp

text \<open>The example library on tokens of its own making.\<close>

lemma ex_byte_roundtrip: "char_of (unat (of_nat (of_char c) :: byte)) = c"
proof -
  have "unat (of_nat (of_char c) :: byte) = of_char c mod 256"
    by (simp add: unat_of_nat)
  then have "unat (of_nat (of_char c) :: byte) = of_char c"
    by (simp only: of_char_mod_256)
  then show ?thesis by simp
qed

lemma ex_bytes_roundtrip:
  "map ((\<lambda>b. char_of (unat (b :: byte))) \<circ> (\<lambda>c. of_nat (of_char c))) s = s"
  by (induction s) (simp_all add: ex_byte_roundtrip)

lemma ex_decode_payload:
  "s \<noteq> [] \<Longrightarrow> decode_payload example_lib cfg (''v4.local.'' @ s) = ex_json_loads s"
  unfolding decode_payload_def
  by (simp add: Let_def example_lib_def ex_decode_def ex_bytes_decode_def bind_exn_def
      ex_bytes_roundtrip)

lemma ex_loads_1: "ex_json_loads ''7|A5|A0'' = Inr (JDict [(''sub'', JStr ''7''), (''exp'', JStr ''A5''), (''iat'', JStr ''A0'')])"
  by code_simp

lemma ex_fromiso_1: "ex_fromisoformat ''A5'' = Inr (Aware 5)"
  by code_simp

text \<open>
  C2. A token whose payload decrypts and parses, and whose expiry instant lies before the
  current time, is refused: \<open>verify_token\<close> returns \<open>None\<close>. (An expiry without a time
  zone cannot be compared with the clock and is refused as well.)
\<close>

theorem verify_token_expired:
  "decode_payload L cfg token = Inr payload
   \<and> getitem payload ''exp'' = Inr e
   \<and> (fromisoformat_json L e = Inr (Aware t) \<or> fromisoformat_json L e = Inr (Naive t))
   \<and> t < now
   \<longrightarrow> verify_token L cfg now token = Inr None"
proof
  assume a: "decode_payload L cfg token = Inr payload
   \<and> getitem payload ''exp'' = Inr e
   \<and> (fromisoformat_json L e = Inr (Aware t) \<or> fromisoformat_json L e = Inr (Naive t))
   \<and> t < now"
  then consider (aware) "fromisoformat_json L e = Inr (Aware t)"
    | (naive) "fromisoformat_json L e = Inr (Naive t)" by blast
  then show "verify_token L cfg now token = Inr None"
  proof cases
    case aware
    from a have "dt_less (Aware t) (Aware now) = Inr True" by simp
    with a aware have "verify_token_try L cfg now token = Inr None"
      using verify_token_try_expired [of L cfg token payload e "Aware t" now] by blast
    then show ?thesis by (simp add: verify_token_None_iff)
  next
    case naive
    with a have "verify_token_try L cfg now token = Inl TypeError"
      using verify_token_try_naive [of L cfg token payload e t now] by blast
    then show ?thesis by (simp add: verify_token_None_iff)
  qed
qed

theorem verify_token_expired_witness:
  "verify_token example_lib example_config 10 ''v4.local.7|A5|A0'' = Inr None"
proof -
  let ?p = "JDict [(''sub'', JStr ''7''), (''exp'', JStr ''A5''), (''iat'', JStr ''A0'')]"
  have d: "decode_payload example_lib example_config ''v4.local.7|A5|A0'' = Inr ?p"
    using ex_decode_payload [of "''7|A5|A0''" example_config] by (simp add: ex_loads_1)
  have g: "getitem ?p ''exp'' = Inr (JStr ''A5'')" by simp
  have f: "fromisoformat_json example_lib (JStr ''A5'') = Inr (Aware 5)"
    by (simp add: example_lib_def ex_fromiso_1)
  have "(5::int) < 10" by simp
  with d g f verify_token_expired
    [of example_lib example_config "''v4.local.7|A5|A0''" ?p "JStr ''A5''" 5 10]
  show ?thesis by blast
qed

section \<open>Decimal strings\<close>

lemma of_char_digit_char: "d < 10 \<Longrightarrow> (of_char (digit_char d) :: nat) = 48 + d"
  by (simp add: digit_char_def)

lemma is_digit_digit_char: "d < 10 \<Longrightarrow> is_digit (digit_char d)"
  by (simp add: is_digit_def of_char_digit_char)

lemma digit_val_digit_char: "d < 10 \<Longrightarrow> digit_val (digit_char d) = d"
  by (simp add: digit_val_def of_char_digit_char)

lemma digits_all_digit: "list_all is_digit (digits n)"
proof (induction n rule: digits.induct)
  case (1 n)
  show ?case
  proof (cases "n < 10")
    case True
    then show ?thesis by (subst digits.simps) (simp add: is_digit_digit_char)
  next
    case False
    with 1 have "list_all is_digit (digits (n div 10))" by simp
    with False show ?thesis by (subst digits.simps) (simp add: is_digit_digit_char)
  qed
qed

lemma digits_nonempty: "digits n \<noteq> []"
  by (subst digits.simps) simp

lemma parse_digits_foldl:
  "list_all is_digit ds \<Longrightarrow> ds \<noteq> [] \<or> prev \<Longrightarrow>
   parse_digits acc prev ds = Some (foldl (\<lambda>a c. a * 10 + digit_val c) acc ds)"
  by (induction ds arbitrary: acc prev) simp_all

lemma foldl_digits: "foldl (\<lambda>a c. a * 10 + digit_val c) 0 (digits n) = n"
proof (induction n rule: digits.induct)
  case (1 n)
  show ?case
  proof (cases "n < 10")
    case True
    then show ?thesis by (subst digits.simps) (simp add: digit_val_digit_char)
  next
    case False
    with 1 have "foldl (\<lambda>a c. a * 10 + digit_val c) 0 (digits (n div 10)) = n div 10" by simp
    with False show ?thesis by (subst digits.simps) (simp add: digit_val_digit_char)
  qed
qed

lemma parse_digits_digits: "parse_digits 0 False (digits n) = Some n"
  by (simp add: parse_digits_foldl digits_all_digit digits_nonempty foldl_digits)

lemma is_digit_not_int_space: "is_digit c \<Longrightarrow> \<not> is_int_space c"
  by (auto simp: is_digit_def is_int_space_def Let_def)

lemma is_digit_not_sign: "is_digit c \<Longrightarrow> c \<noteq> CHR ''-'' \<and> c \<noteq> CHR ''+''"
  by (auto simp: is_digit_def)

lemma dropWhile_digits: "dropWhile is_int_space (digits n) = digits n"
proof -
  from digits_nonempty obtain c cs where d: "digits n = c # cs" by (cases "digits n") auto
  with digits_all_digit [of n] have "is_digit c" by simp
  then have "\<not> is_int_space c" by (rule is_digit_not_int_space)
  with d show ?thesis by simp
qed

lemma rev_digits_head: "\<exists>c cs. rev (digits n) = c # cs \<and> \<not> is_int_space c"
proof -
  from digits_nonempty obtain c cs where d: "rev (digits n) = c # cs"
    by (cases "rev (digits n)") auto
  then have "c \<in> set (digits n)" by (metis list.set_intros(1) set_rev)
  with digits_all_digit [of n] have "is_digit c" by (simp add: list_all_iff)
  then have "\<not> is_int_space c" by (rule is_digit_not_int_space)
  with d show ?thesis by blast
qed

lemma dropWhile_rev_digits: "dropWhile is_int_space (rev (digits n) @ r) = rev (digits n) @ r"
proof -
  from rev_digits_head obtain c cs where "rev (digits n) = c # cs" "\<not> is_int_space c"
    by blast
  then show ?thesis by simp
qed

lemma int_str_digits: "int_str (digits n) = Inr (int n)"
proof -
  from digits_nonempty obtain c cs where d: "digits n = c # cs" by (cases "digits n") auto
  with digits_all_digit [of n] have "is_digit c" by simp
  then have s: "c \<noteq> CHR ''-'' \<and> c \<noteq> CHR ''+''" by (rule is_digit_not_sign)
  have "rev (dropWhile is_int_space (rev (dropWhile is_int_space (digits n)))) = digits n"
    using dropWhile_rev_digits [of n "[]"] by (simp add: dropWhile_digits)
  then show ?thesis
    unfolding int_str_def using d s parse_digits_digits [of n] by (simp add: Let_def)
qed

lemma int_str_minus_digits: "int_str (CHR ''-'' # digits n) = Inr (- int n)"
proof -
  have m: "\<not> is_int_space CHR ''-''" by (simp add: is_int_space_def)
  have "dropWhile is_int_space (rev (CHR ''-'' # digits n)) = rev (CHR ''-'' # digits n)"
    using dropWhile_rev_digits [of n "[CHR ''-'']"] by simp
  then have "rev (dropWhile is_int_space (rev (dropWhile is_int_space (CHR ''-'' # digits n))))
      = CHR ''-'' # digits n"
    using m by simp
  then show ?thesis
    unfolding int_str_def using parse_digits_digits [of n] by (simp add: Let_def)
qed

lemma int_str_str_int: "int_str (str_int i) = Inr i"
proof (cases "i < 0")
  case True
  then show ?thesis by (simp add: str_int_def int_str_minus_digits)
next
  case False
  then show ?thesis by (simp add: str_int_def int_str_digits)
qed


section \<open>Token round trip\<close>

lemma generate_token_Inr:
  "generate_token L cfg now1 now2 nonce user_id expires_in = Inr token \<longleftrightarrow>
     dt_min \<le> now1 + expires_in * 1000000 \<and> now1 + expires_in * 1000000 \<le> dt_max
   \<and> token = pyseto_encode L (get_paseto_key cfg)
         (token_claims L user_id (Aware (now1 + expires_in * 1000000)) (Aware now2)) nonce"
  unfolding generate_token_def bind_exn_def by (auto simp: Let_def)

lemma getitem_token_claims:
  "getitem (token_claims L user_id exp iat) ''sub'' = Inr (JStr (str_int user_id))"
  "getitem (token_claims L user_id exp iat) ''exp'' = Inr (JStr (isoformat L exp))"
  by (simp_all add: token_claims_def)

lemma example_lib_sel:
  "pyseto_encode example_lib = ex_encode"
  "pyseto_decode example_lib = ex_decode"
  "bytes_decode example_lib = ex_bytes_decode"
  "json_loads example_lib = ex_json_loads"
  "isoformat example_lib = ex_isoformat"
  "fromisoformat example_lib = ex_fromisoformat"
  "generate_password_hash example_lib = (\<lambda>pw salt. ''plain:'' @ pw)"
  "check_password_hash example_lib = (\<lambda>h pw. h = ''plain:'' @ pw)"
  by (simp_all add: example_lib_def)

lemma ex_iso_round_trip: "ex_fromisoformat (ex_isoformat d) = Inr d"
  by (cases d) (simp_all add: ex_fromisoformat_def ex_isoformat_def int_str_str_int)

lemma ex_str_int:
  "str_int 7 = ''7''"
  "str_int 3601000000 = ''3601000000''"
  "str_int 1000001 = ''1000001''"
  by (simp_all add: str_int_def digits.simps digit_char_def char_of_eq_iff)

lemma decode_payload_round_trip:
  assumes "claims_round_trip L (get_paseto_key cfg)"
  shows "decode_payload L cfg
           (pyseto_encode L (get_paseto_key cfg) (token_claims L user_id exp iat) nonce)
         = Inr (token_claims L user_id exp iat)"
proof -
  let ?p = "JDict [(''sub'', JStr (str_int user_id)), (''exp'', JStr (isoformat L exp)),
                   (''iat'', JStr (isoformat L iat))]"
  let ?d = "pyseto_decode L (get_paseto_key cfg) (pyseto_encode L (get_paseto_key cfg) ?p nonce)"
  from assms have c: "case ?d of
          Inl err \<Rightarrow> False
        | Inr (PObject obj) \<Rightarrow> False
        | Inr (PBytes bs) \<Rightarrow>
            (case bytes_decode L bs of
               Inl err \<Rightarrow> False
             | Inr chars \<Rightarrow> json_loads L chars = Inr ?p)"
    unfolding claims_round_trip_def by blast
  then obtain bs where d: "?d = Inr (PBytes bs)"
    by (cases "?d") (auto split: token_payload.splits)
  with c obtain str where b: "bytes_decode L bs = Inr str" and j: "json_loads L str = Inr ?p"
    by (cases "bytes_decode L bs") auto
  from d b j show ?thesis
    by (simp add: decode_payload_def token_claims_def Let_def bind_exn_def)
qed

text \<open>The keyed example library keeps both contracts, under every key.\<close>

lemma is_digit_colon: "\<not> is_digit CHR '':''"
  by (simp add: is_digit_def)

lemma dec_field_enc_field: "dec_field (enc_field a @ r) = Some (a, r)"
proof -
  let ?n = "length a"
  have all: "\<And>x. x \<in> set (digits ?n) \<Longrightarrow> is_digit x"
    using digits_all_digit [of ?n] by (simp add: list_all_iff)
  have e: "enc_field a @ r = digits ?n @ (CHR '':'' # a @ r)"
    by (simp add: enc_field_def)
  have tw: "takeWhile is_digit (enc_field a @ r) = digits ?n"
    unfolding e using all by (simp add: takeWhile_append2 is_digit_colon)
  have dw: "dropWhile is_digit (enc_field a @ r) = CHR '':'' # a @ r"
    unfolding e using all by (simp add: dropWhile_append2 is_digit_colon)
  show ?thesis
    unfolding dec_field_def tw dw by (simp add: parse_digits_digits)
qed

lemma dec_field_enc_field_end: "dec_field (enc_field a) = Some (a, [])"
  using dec_field_enc_field [of a "[]"] by simp

lemma keyed_lib_sel:
  "pyseto_encode keyed_lib = keyed_encode"
  "pyseto_decode keyed_lib = keyed_decode"
  "bytes_decode keyed_lib = ex_bytes_decode"
  "json_loads keyed_lib = keyed_json_loads"
  "isoformat keyed_lib = ex_isoformat"
  "fromisoformat keyed_lib = ex_fromisoformat"
  by (simp_all add: keyed_lib_def)

lemma keyed_json_loads_fields:
  "keyed_json_loads (enc_field a @ enc_field b @ enc_field c) =
     Inr (JDict [(''sub'', JStr a), (''exp'', JStr b), (''iat'', JStr c)])"
  by (simp add: keyed_json_loads_def dec_field_enc_field dec_field_enc_field_end)

lemma keyed_decode_encode:
  "keyed_decode k (keyed_encode k (JDict [(''sub'', JStr a), (''exp'', JStr b), (''iat'', JStr c)]) n) =
     Inr (PBytes (map (\<lambda>c. of_nat (of_char c)) (enc_field a @ enc_field b @ enc_field c)))"
  by (simp add: keyed_decode_def keyed_encode_def dec_field_enc_field)

lemma keyed_decode_other_key:
  "key_tag k' \<noteq> key_tag k \<Longrightarrow>
   keyed_decode k' (keyed_encode k (JDict [(''sub'', JStr a), (''exp'', JStr b), (''iat'', JStr c)]) n) =
     Inl DecryptError"
  by (simp add: keyed_decode_def keyed_encode_def dec_field_enc_field)

lemma keyed_lib_claims_round_trip: "claims_round_trip keyed_lib k"
  unfolding claims_round_trip_def keyed_lib_sel keyed_decode_encode
  by (simp add: ex_bytes_decode_def ex_bytes_roundtrip keyed_json_loads_fields)

lemma keyed_lib_iso_round_trip: "iso_round_trip keyed_lib"
  unfolding iso_round_trip_def keyed_lib_sel by (simp add: ex_iso_round_trip)

text \<open>
  C1. For every user id and lifetime, a token that \<open>generate_token\<close> produced verifies at
  every time up to its expiry instant, and the payload returned carries the user id under
  \<open>sub\<close>, as the decimal string that \<open>int\<close> reads back. The libraries are taken at
  their contract: under the key of the configuration pyseto and json return the claims they
  were given, and \<open>fromisoformat\<close> reads back what \<open>isoformat\<close> wrote. The user id
  has at most 4300 digits, the range in which \<open>str\<close> returns.
\<close>

theorem token_round_trip:
  assumes "claims_round_trip L (get_paseto_key cfg)"
    and "iso_round_trip L"
    and "length (digits (nat \<bar>user_id\<bar>)) \<le> 4300"
    and "generate_token L cfg now1 now2 nonce user_id expires_in = Inr token"
    and "now \<le> now1 + expires_in * 1000000"
  shows "\<exists>payload. verify_token L cfg now token = Inr (Some payload)
           \<and> getitem payload ''sub'' = Inr (JStr (str_int user_id))
           \<and> bind_exn (getitem payload ''sub'') int_json = Inr user_id"
proof -
  let ?exp = "Aware (now1 + expires_in * 1000000)"
  let ?p = "token_claims L user_id ?exp (Aware now2)"
  from assms(4) have t: "token = pyseto_encode L (get_paseto_key cfg) ?p nonce"
    unfolding generate_token_Inr by simp
  have d: "decode_payload L cfg token = Inr ?p"
    unfolding t using assms(1) by (rule decode_payload_round_trip)
  have f: "fromisoformat_json L (JStr (isoformat L ?exp)) = Inr ?exp"
    using assms(2) by (simp add: iso_round_trip_def)
  have l: "dt_less ?exp (Aware now) = Inr False"
    using assms(5) by simp
  have "verify_token_try L cfg now token = Inr (Some ?p)"
    unfolding verify_token_try_Some_iff
    using d getitem_token_claims(2) [of L user_id ?exp "Aware now2"] f l by blast
  then have v: "verify_token L cfg now token = Inr (Some ?p)"
    by (simp add: verify_token_Some_iff)
  have s: "getitem ?p ''sub'' = Inr (JStr (str_int user_id))"
    by (rule getitem_token_claims(1))
  then have "bind_exn (getitem ?p ''sub'') int_json = Inr user_id"
    by (simp add: bind_exn_def int_str_str_int)
  with v s show ?thesis by blast
qed

theorem token_round_trip_witness:
  "\<exists>payload.
     verify_token keyed_lib example_config 2000000
       (pyseto_encode keyed_lib (get_paseto_key example_config)
          (token_claims keyed_lib 7 (Aware (1000000 + 3600 * 1000000)) (Aware 1000001)) 0)
       = Inr (Some payload)
     \<and> getitem payload ''sub'' = Inr (JStr (str_int 7))
     \<and> bind_exn (getitem payload ''sub'') int_json = Inr 7"
proof -
  have g: "generate_token keyed_lib example_config 1000000 1000001 0 7 3600 =
      Inr (pyseto_encode keyed_lib (get_paseto_key example_config)
          (token_claims keyed_lib 7 (Aware (1000000 + 3600 * 1000000)) (Aware 1000001)) 0)"
    unfolding generate_token_Inr by (simp add: dt_min_def dt_max_def)
  have b: "length (digits (nat \<bar>7::int\<bar>)) \<le> 4300"
    by (simp add: digits.simps)
  have n: "(2000000::int) \<le> 1000000 + 3600 * 1000000" by simp
  show ?thesis
    using token_round_trip
      [OF keyed_lib_claims_round_trip keyed_lib_iso_round_trip b g n] .
qed

section \<open>Rejections by the guard\<close>

lemma decorated_with_token_invalid:
  "verify_token L cfg now token = Inr None \<Longrightarrow>
   decorated_with_token f L cfg now token =
     Inr (JDict [(''error'', JStr ''Token is invalid or expired'')], 401)"
  by (simp add: decorated_with_token_def bind_exn_def)

lemma split_example_garbage: "split ''Bearer garbage'' = [''Bearer'', ''garbage'']"
  by code_simp

lemma ex_bearer_garbage: "bearer_token (Some ''Bearer garbage'') = Some ''garbage''"
  unfolding bearer_token_Some_iff by (simp add: split_example_garbage)

lemma ex_try_garbage: "verify_token_try example_lib example_config 0 ''garbage'' = Inl DecryptError"
  by (simp add: verify_token_try_def decode_payload_def Let_def example_lib_sel ex_decode_def
      bind_exn_def)

lemma ex_bearer_none: "bearer_token None = None"
  by (simp add: bearer_token_def)

text \<open>
  C6 (amended). Every rejection by the guard has status 401. A request from which no bearer
  token can be read is answered with \<open>Token is missing\<close>; a request whose token fails
  verification, whether the try block raised any exception (undecodable, forged, unparsable)
  or found the token expired, is answered with the one body \<open>Token is invalid or expired\<close>.
\<close>

theorem guard_rejections:
  "(bearer_token auth_header = None \<longrightarrow>
      token_required f L cfg now auth_header =
        Inr (JDict [(''error'', JStr ''Token is missing'')], 401))
   \<and> (bearer_token auth_header = Some token
        \<and> (verify_token_try L cfg now token = Inl e \<or> verify_token_try L cfg now token = Inr None)
      \<longrightarrow> token_required f L cfg now auth_header =
            Inr (JDict [(''error'', JStr ''Token is invalid or expired'')], 401))"
proof (intro conjI impI)
  assume "bearer_token auth_header = None"
  then show "token_required f L cfg now auth_header =
      Inr (JDict [(''error'', JStr ''Token is missing'')], 401)"
    by (simp add: token_required_def)
next
  assume a: "bearer_token auth_header = Some token
      \<and> (verify_token_try L cfg now token = Inl e \<or> verify_token_try L cfg now token = Inr None)"
  then have "token \<noteq> []" using bearer_token_nonempty by blast
  with a have t: "token_required f L cfg now auth_header = decorated_with_token f L cfg now token"
    by (simp add: token_required_def)
  from a have "verify_token L cfg now token = Inr None"
    unfolding verify_token_None_iff by blast
  with t show "token_required f L cfg now auth_header =
      Inr (JDict [(''error'', JStr ''Token is invalid or expired'')], 401)"
    by (simp add: decorated_with_token_invalid)
qed

theorem guard_rejections_witness:
  "token_required (get_current_user_body example_lib [example_user]) example_lib example_config 0 None
     = Inr (JDict [(''error'', JStr ''Token is missing'')], 401)
   \<and> token_required (get_current_user_body example_lib [example_user]) example_lib example_config 0
       (Some ''Bearer garbage'')
     = Inr (JDict [(''error'', JStr ''Token is invalid or expired'')], 401)"
proof -
  have h: "bearer_token (Some ''Bearer garbage'') = Some ''garbage''
      \<and> (verify_token_try example_lib example_config 0 ''garbage'' = Inl DecryptError
         \<or> verify_token_try example_lib example_config 0 ''garbage'' = Inr None)"
    by (simp add: ex_bearer_garbage ex_try_garbage)
  from ex_bearer_none guard_rejections
    [where auth_header = None and f = "get_current_user_body example_lib [example_user]"
       and L = example_lib and cfg = example_config and now = 0]
  have c1: "token_required (get_current_user_body example_lib [example_user]) example_lib
      example_config 0 None = Inr (JDict [(''error'', JStr ''Token is missing'')], 401)"
    by blast
  from h guard_rejections
    [where auth_header = "Some ''Bearer garbage''" and token = "''garbage''"
       and f = "get_current_user_body example_lib [example_user]"
       and L = example_lib and cfg = example_config and now = 0 and e = DecryptError]
  have c2: "token_required (get_current_user_body example_lib [example_user]) example_lib
      example_config 0 (Some ''Bearer garbage'')
      = Inr (JDict [(''error'', JStr ''Token is invalid or expired'')], 401)"
    by blast
  from c1 c2 show ?thesis by blast
qed

text \<open>
  C6 as stated fails: the two kinds of rejection share the status but not the body, so the
  response tells a missing token from an invalid one.
\<close>

theorem guard_rejection_bodies_differ:
  "get_current_user example_lib example_config 0 [example_user] None
     = Inr (JDict [(''error'', JStr ''Token is missing'')], 401)
   \<and> get_current_user example_lib example_config 0 [example_user] (Some ''Bearer garbage'')
     = Inr (JDict [(''error'', JStr ''Token is invalid or expired'')], 401)
   \<and> get_current_user example_lib example_config 0 [example_user] None
     \<noteq> get_current_user example_lib example_config 0 [example_user] (Some ''Bearer garbage'')"
proof -
  have m: "get_current_user example_lib example_config 0 [example_user] None
     = Inr (JDict [(''error'', JStr ''Token is missing'')], 401)"
    by (simp add: get_current_user_def token_required_def ex_bearer_none)
  have "verify_token example_lib example_config 0 ''garbage'' = Inr None"
    unfolding verify_token_None_iff using ex_try_garbage by blast
  then have i: "get_current_user example_lib example_config 0 [example_user] (Some ''Bearer garbage'')
     = Inr (JDict [(''error'', JStr ''Token is invalid or expired'')], 401)"
    by (simp add: get_current_user_def token_required_def ex_bearer_garbage
        decorated_with_token_invalid)
  from m i show ?thesis by simp
qed

section \<open>Login\<close>

lemma ex_normalized_email:
  "normalized_email example_data = Inr ''a@b.com''"
  "normalized_email (JDict [(''email'', JStr ''x@y.com''), (''password'', JStr ''abcdefgh'')]) = Inr ''x@y.com''"
  "normalized_email (JDict [(''email'', JStr ''a@b.com''), (''password'', JStr ''wrongpassword'')]) = Inr ''a@b.com''"
  by code_simp+

lemma ex_first_by_email:
  "first_by_email [example_user] ''a@b.com'' = Some example_user"
  "first_by_email [example_user] ''x@y.com'' = None"
  by (simp_all add: first_by_email_def example_user_def)

lemma ex_normalized_email_num:
  "normalized_email (JDict [(''email'', JStr ''x@y.com''), (''password'', JNum 12345)]) = Inr ''x@y.com''"
  "normalized_email (JDict [(''email'', JStr ''a@b.com''), (''password'', JNum 12345)]) = Inr ''a@b.com''"
  by code_simp+

text \<open>
  C4. The code misses the claim on a password that is not a string. For an email that no
  account has, \<open>login\<close> answers 401 with \<open>Invalid email or password\<close>; for a stored
  account the same password reaches \<open>check_password_hash\<close>, which raises, and the
  request ends in an exception: the two answers tell whether the account exists.
\<close>

theorem login_non_string_password:
  "login example_lib example_config 0 1 0 [example_user]
       (JDict [(''email'', JStr ''x@y.com''), (''password'', JNum 12345)])
     = Inr (JDict [(''error'', JStr ''Invalid email or password'')], 401)
   \<and> login example_lib example_config 0 1 0 [example_user]
       (JDict [(''email'', JStr ''a@b.com''), (''password'', JNum 12345)])
     = Inl AttributeError"
  by (simp add: login_def bind_exn_def ex_normalized_email_num ex_first_by_email)

text \<open>
  C9. \<open>login\<close> does not look at \<open>is_verified\<close>: for every stored account and matching
  password it answers 200 with a token for the account's id (the clock being such that an
  hour later is still a date), whether or not the email was ever verified.
\<close>

theorem login_ignores_is_verified:
  "truthy data \<and> normalized_email data = Inr addr \<and> addr \<noteq> []
   \<and> dict_get data ''password'' (JStr []) = Inr (JStr pw) \<and> pw \<noteq> []
   \<and> first_by_email st addr = Some user
   \<and> check_password_hash L (password_hash user) pw
   \<and> dt_min \<le> now1 + 3600 * 1000000 \<and> now1 + 3600 * 1000000 \<le> dt_max
   \<longrightarrow> login L cfg now1 now2 nonce st data =
         Inr (JDict [(''message'', JStr ''Login successful''),
                     (''token'', JStr (pyseto_encode L (get_paseto_key cfg)
                        (token_claims L (uid user) (Aware (now1 + 3600 * 1000000)) (Aware now2))
                        nonce)),
                     (''user'', to_dict L user)], 200)"
proof
  assume a: "truthy data \<and> normalized_email data = Inr addr \<and> addr \<noteq> []
   \<and> dict_get data ''password'' (JStr []) = Inr (JStr pw) \<and> pw \<noteq> []
   \<and> first_by_email st addr = Some user
   \<and> check_password_hash L (password_hash user) pw
   \<and> dt_min \<le> now1 + 3600 * 1000000 \<and> now1 + 3600 * 1000000 \<le> dt_max"
  then have "generate_token L cfg now1 now2 nonce (uid user) 3600 =
      Inr (pyseto_encode L (get_paseto_key cfg)
             (token_claims L (uid user) (Aware (now1 + 3600 * 1000000)) (Aware now2)) nonce)"
    unfolding generate_token_Inr by simp
  with a show "login L cfg now1 now2 nonce st data =
         Inr (JDict [(''message'', JStr ''Login successful''),
                     (''token'', JStr (pyseto_encode L (get_paseto_key cfg)
                        (token_claims L (uid user) (Aware (now1 + 3600 * 1000000)) (Aware now2))
                        nonce)),
                     (''user'', to_dict L user)], 200)"
    by (simp add: login_def bind_exn_def)
qed

theorem login_ignores_is_verified_witness:
  "\<not> is_verified example_user
   \<and> login example_lib example_config 1000000 1000001 0 [example_user] example_data =
       Inr (JDict [(''message'', JStr ''Login successful''),
                   (''token'', JStr ''v4.local.1|A3601000000|A1000001''),
                   (''user'', to_dict example_lib example_user)], 200)"
proof -
  have s1: "str_int 1 = ''1''"
    by (simp add: str_int_def digits.simps digit_char_def char_of_eq_iff)
  have t: "pyseto_encode example_lib (get_paseto_key example_config)
      (token_claims example_lib (uid example_user) (Aware (1000000 + 3600 * 1000000)) (Aware 1000001)) 0
      = ''v4.local.1|A3601000000|A1000001''"
    by (simp add: token_claims_def example_lib_sel ex_isoformat_def ex_str_int s1 ex_encode_def
        example_user_def)
  have h: "truthy example_data \<and> normalized_email example_data = Inr ''a@b.com'' \<and> ''a@b.com'' \<noteq> []
   \<and> dict_get example_data ''password'' (JStr []) = Inr (JStr ''abcdefgh'') \<and> ''abcdefgh'' \<noteq> []
   \<and> first_by_email [example_user] ''a@b.com'' = Some example_user
   \<and> check_password_hash example_lib (password_hash example_user) ''abcdefgh''
   \<and> dt_min \<le> 1000000 + 3600 * 1000000 \<and> (1000000::int) + 3600 * 1000000 \<le> dt_max"
    by (simp add: ex_normalized_email ex_first_by_email example_lib_sel dt_min_def dt_max_def)
       (simp add: example_data_def example_user_def)
  have v: "\<not> is_verified example_user" by (simp add: example_user_def)
  from h login_ignores_is_verified
    [where data = example_data and addr = "''a@b.com''" and pw = "''abcdefgh''"
       and st = "[example_user]" and user = example_user and L = example_lib
       and cfg = example_config and ?now1.0 = 1000000 and ?now2.0 = 1000001 and nonce = 0]
  have "login example_lib example_config 1000000 1000001 0 [example_user] example_data =
       Inr (JDict [(''message'', JStr ''Login successful''),
                   (''token'', JStr (pyseto_encode example_lib (get_paseto_key example_config)
      (token_claims example_lib (uid example_user) (Aware (1000000 + 3600 * 1000000)) (Aware 1000001)) 0)),
                   (''user'', to_dict example_lib example_user)], 200)"
    by blast
  with t v show ?thesis by simp
qed

section \<open>Signup\<close>

lemma signup_check_Inr:
  "signup_check st data = Inr (Inr ep) \<Longrightarrow>
     normalized_email data = Inr (fst ep) \<and> first_by_email st (fst ep) = None"
  unfolding signup_check_def bind_exn_def
  by (auto split: if_splits sum.splits option.splits)

lemma signup_check_Inl_status:
  "signup_check st data = Inr (Inl (body, status)) \<Longrightarrow> status = 400 \<or> status = 409"
  unfolding signup_check_def bind_exn_def
  by (auto split: if_splits sum.splits option.splits)

lemma first_by_email_append:
  "first_by_email (st @ [u]) e \<noteq> None \<longleftrightarrow> first_by_email st e \<noteq> None \<or> email u = e"
  unfolding first_by_email_def by (induction st) auto

lemma commit_insert_Inr:
  "commit_insert db_up st u = Inr st' \<Longrightarrow>
     first_by_email st (email u) = None \<and> st' = st @ [u\<lparr>uid := next_id st\<rparr>]"
  unfolding commit_insert_def by (auto split: if_splits)

lemma signup_create_cases:
  assumes "signup_create L vt salt now db_up st ep = (out, st')"
  shows "(st' = st \<and> (\<forall>body. out \<noteq> Inr (body, 201)))
       \<or> ((\<exists>body. out = Inr (body, 201)) \<and> first_by_email st (fst ep) = None
           \<and> (\<exists>u. email u = fst ep \<and> st' = st @ [u]))"
proof (cases "password_str (snd ep)")
  case (Inl e)
  with assms show ?thesis by (auto simp: signup_create_def)
next
  case (Inr pw)
  let ?user = "\<lparr>uid = 0, email = fst ep, password_hash = generate_password_hash L pw salt,
      is_verified = False, verification_token = Some vt,
      created_at = Some (Naive now), updated_at = Some (Naive now)\<rparr>"
  show ?thesis
  proof (cases "commit_insert db_up st ?user")
    case (Inl e)
    with Inr assms show ?thesis by (auto simp: signup_create_def Let_def)
  next
    case c: (Inr st2)
    then have f: "first_by_email st (fst ep) = None" and s: "st2 = st @ [?user\<lparr>uid := next_id st\<rparr>]"
      using commit_insert_Inr [OF c] by simp_all
    from Inr c assms have "st' = st2" and "\<exists>body. out = Inr (body, 201)"
      by (auto simp: signup_create_def Let_def)
    with f s show ?thesis by auto
  qed
qed

lemma succeeded_Done: "succeeded (Done out) \<longleftrightarrow> (\<exists>body. out = Inr (body, 201))"
  by (auto simp: succeeded_def split: sum.splits)

lemma succeeded_simps: "\<not> succeeded (Start d)" "\<not> succeeded (Checked ep)"
  by (simp_all add: succeeded_def)

lemma signup_step_facts:
  assumes "req_email ne r" and "signup_step L i st r = (r', st')"
  shows "req_email ne r'"
    and "first_by_email st e \<noteq> None \<Longrightarrow> first_by_email st' e \<noteq> None"
    and "succeeded r \<Longrightarrow> r' = r \<and> st' = st"
    and "succeeded r' \<Longrightarrow> \<not> succeeded r \<Longrightarrow>
           \<exists>a. ne = Inr a \<and> first_by_email st a = None \<and> first_by_email st' a \<noteq> None"
proof -
  have "req_email ne r'
      \<and> (first_by_email st e \<noteq> None \<longrightarrow> first_by_email st' e \<noteq> None)
      \<and> (succeeded r \<longrightarrow> r' = r \<and> st' = st)
      \<and> (succeeded r' \<and> \<not> succeeded r \<longrightarrow>
           (\<exists>a. ne = Inr a \<and> first_by_email st a = None \<and> first_by_email st' a \<noteq> None))"
  proof (cases r)
    case (Start data)
    show ?thesis
    proof (cases "signup_check st data")
      case (Inl x)
      with Start assms(2) show ?thesis
        by (auto simp: signup_step_def req_email_def succeeded_def)
    next
      case (Inr y)
      show ?thesis
      proof (cases y)
        case (Inl resp)
        obtain body status where "resp = (body, status)" by (cases resp)
        with Inl Inr have "status = 400 \<or> status = 409"
          using signup_check_Inl_status by blast
        with Start assms(2) Inr Inl \<open>resp = (body, status)\<close> show ?thesis
          by (auto simp: signup_step_def req_email_def succeeded_def)
      next
        case i: (Inr ep)
        with Inr have "normalized_email data = Inr (fst ep)"
          using signup_check_Inr by blast
        with Start assms Inr i show ?thesis
          by (auto simp: signup_step_def req_email_def succeeded_def)
      qed
    qed
  next
    case (Checked ep)
    obtain out st2 where c: "signup_create L (in_vtoken i) (in_salt i) (in_now i) (in_db_up i) st ep
        = (out, st2)"
      by (cases "signup_create L (in_vtoken i) (in_salt i) (in_now i) (in_db_up i) st ep")
    with Checked assms(2) have r': "r' = Done out" and st': "st' = st2"
      by (simp_all add: signup_step_def)
    from Checked assms(1) have ne: "ne = Inr (fst ep)" by (simp add: req_email_def)
    from signup_create_cases [OF c] show ?thesis
    proof
      assume "st2 = st \<and> (\<forall>body. out \<noteq> Inr (body, 201))"
      with r' st' Checked show ?thesis
        by (simp add: req_email_def succeeded_Done succeeded_simps)
    next
      assume a: "(\<exists>body. out = Inr (body, 201)) \<and> first_by_email st (fst ep) = None
           \<and> (\<exists>u. email u = fst ep \<and> st2 = st @ [u])"
      then obtain u where u: "email u = fst ep" "st2 = st @ [u]" by blast
      have "first_by_email st2 (fst ep) \<noteq> None"
        using u first_by_email_append [of st u "fst ep"] by blast
      moreover have "first_by_email st e \<noteq> None \<longrightarrow> first_by_email st2 e \<noteq> None"
        using u first_by_email_append [of st u e] by blast
      ultimately show ?thesis using a r' st' Checked ne
        by (simp add: req_email_def succeeded_simps)
    qed
  next
    case (Done out)
    with assms(2) have "r' = Done out" and "st' = st" by (simp_all add: signup_step_def)
    with Done show ?thesis by (simp add: req_email_def)
  qed
  then show "req_email ne r'"
    and "first_by_email st e \<noteq> None \<Longrightarrow> first_by_email st' e \<noteq> None"
    and "succeeded r \<Longrightarrow> r' = r \<and> st' = st"
    and "succeeded r' \<Longrightarrow> \<not> succeeded r \<Longrightarrow>
           \<exists>a. ne = Inr a \<and> first_by_email st a = None \<and> first_by_email st' a \<noteq> None"
    by blast+
qed


lemma run_signups_invariant:
  assumes "req_email ne a" and "req_email ne b"
    and "succeeded a \<or> succeeded b \<Longrightarrow> \<exists>e. ne = Inr e \<and> first_by_email st e \<noteq> None"
    and "\<not> (succeeded a \<and> succeeded b)"
    and "run_signups L ia ib sched (st, a, b) = (st', a', b')"
  shows "\<not> (succeeded a' \<and> succeeded b')"
  using assms
proof (induction sched arbitrary: st a b)
  case Nil
  then show ?case by simp
next
  case (Cons first sched)
  show ?case
  proof (cases first)
    case True
    obtain a2 st2 where step: "signup_step L ia st a = (a2, st2)"
      by (cases "signup_step L ia st a")
    with True Cons.prems(5) have run: "run_signups L ia ib sched (st2, a2, b) = (st', a', b')"
      by simp
    note f = signup_step_facts [OF Cons.prems(1) step]
    have i3: "succeeded a2 \<or> succeeded b \<Longrightarrow> \<exists>e. ne = Inr e \<and> first_by_email st2 e \<noteq> None"
    proof -
      assume s: "succeeded a2 \<or> succeeded b"
      show "\<exists>e. ne = Inr e \<and> first_by_email st2 e \<noteq> None"
      proof (cases "succeeded a \<or> succeeded b")
        case True
        with Cons.prems(3) obtain e where "ne = Inr e" "first_by_email st e \<noteq> None" by blast
        with f(2) show ?thesis by blast
      next
        case False
        with s have "succeeded a2" "\<not> succeeded a" by simp_all
        with f(4) show ?thesis by blast
      qed
    qed
    have i4: "\<not> (succeeded a2 \<and> succeeded b)"
    proof
      assume s: "succeeded a2 \<and> succeeded b"
      with Cons.prems(3) obtain e where e: "ne = Inr e" "first_by_email st e \<noteq> None" by blast
      from s Cons.prems(4) have "\<not> succeeded a" by blast
      with s f(4) obtain x where "ne = Inr x" "first_by_email st x = None" by blast
      with e show False by simp
    qed
    from Cons.IH [OF f(1) Cons.prems(2) i3 i4 run] show ?thesis .
  next
    case False
    obtain b2 st2 where step: "signup_step L ib st b = (b2, st2)"
      by (cases "signup_step L ib st b")
    with False Cons.prems(5) have run: "run_signups L ia ib sched (st2, a, b2) = (st', a', b')"
      by simp
    note f = signup_step_facts [OF Cons.prems(2) step]
    have i3: "succeeded a \<or> succeeded b2 \<Longrightarrow> \<exists>e. ne = Inr e \<and> first_by_email st2 e \<noteq> None"
    proof -
      assume s: "succeeded a \<or> succeeded b2"
      show "\<exists>e. ne = Inr e \<and> first_by_email st2 e \<noteq> None"
      proof (cases "succeeded a \<or> succeeded b")
        case True
        with Cons.prems(3) obtain e where "ne = Inr e" "first_by_email st e \<noteq> None" by blast
        with f(2) show ?thesis by blast
      next
        case False
        with s have "succeeded b2" "\<not> succeeded b" by simp_all
        with f(4) show ?thesis by blast
      qed
    qed
    have i4: "\<not> (succeeded a \<and> succeeded b2)"
    proof
      assume s: "succeeded a \<and> succeeded b2"
      with Cons.prems(3) obtain e where e: "ne = Inr e" "first_by_email st e \<noteq> None" by blast
      from s Cons.prems(4) have "\<not> succeeded b" by blast
      with s f(4) obtain x where "ne = Inr x" "first_by_email st x = None" by blast
      with e show False by simp
    qed
    from Cons.IH [OF Cons.prems(1) f(1) i3 i4 run] show ?thesis .
  qed
qed

lemma signup_create_taken:
  "first_by_email st (fst ep) \<noteq> None \<Longrightarrow> password_str (snd ep) = Inr pw \<Longrightarrow>
   signup_create L vt salt now db_up st ep =
     (Inr (JDict [(''error'', JStr ''Failed to create user'')], 500), st)"
  by (auto simp: signup_create_def commit_insert_def Let_def)

lemma signup_as_steps:
  "signup L (in_vtoken i) (in_salt i) (in_now i) (in_db_up i) st data = (out, st') \<longleftrightarrow>
     run_signups L i i [True, True] (st, Start data, b) = (st', Done out, b)"
proof (cases "signup_check st data")
  case (Inl e)
  then show ?thesis by (auto simp: signup_def signup_step_def)
next
  case (Inr y)
  then show ?thesis
    by (cases y) (auto simp: signup_def signup_step_def split: prod.splits)
qed

lemma ex_signup_check:
  "signup_check [] example_data = Inr (Inr (''a@b.com'', JStr ''abcdefgh''))"
  by code_simp

lemma ex_signup_create_first:
  "signup_create example_lib ''tok'' 0 0 True [] (''a@b.com'', JStr ''abcdefgh'') =
     (Inr (JDict [(''message'', JStr ''User created successfully''),
                  (''user'', to_dict example_lib example_user),
                  (''verification_token'', JStr ''tok''),
                  (''note'', JStr ''In production, verification token would be sent via email'')],
           201), [example_user])"
  by (simp add: signup_create_def commit_insert_def first_by_email_def next_id_def Let_def
      example_lib_sel example_user_def)

lemma ex_signup_create_second:
  "signup_create example_lib ''tok'' 0 0 True [example_user] (''a@b.com'', JStr ''abcdefgh'') =
     (Inr (JDict [(''error'', JStr ''Failed to create user'')], 500), [example_user])"
  by (rule signup_create_taken [where pw = "''abcdefgh''"]) (simp_all add: ex_first_by_email)

lemma ex_run_signups:
  "run_signups example_lib example_inputs example_inputs [True, False, True, False]
       ([], Start example_data, Start example_data) =
     ([example_user],
      Done (Inr (JDict [(''message'', JStr ''User created successfully''),
                  (''user'', to_dict example_lib example_user),
                  (''verification_token'', JStr ''tok''),
                  (''note'', JStr ''In production, verification token would be sent via email'')],
           201)),
      Done (Inr (JDict [(''error'', JStr ''Failed to create user'')], 500)))"
  by (simp add: signup_step_def ex_signup_check example_inputs_def ex_signup_create_first
      ex_signup_create_second)

lemma signup_check_taken:
  "truthy data \<Longrightarrow> normalized_email data = Inr addr \<Longrightarrow> addr \<noteq> [] \<Longrightarrow> is_valid_email addr \<Longrightarrow>
   dict_get data ''password'' (JStr []) = Inr pw \<Longrightarrow> truthy pw \<Longrightarrow> len_json pw = Inr n \<Longrightarrow> 8 \<le> n \<Longrightarrow>
   first_by_email st addr \<noteq> None \<Longrightarrow>
   signup_check st data = Inr (Inl (JDict [(''error'', JStr ''Email already registered'')], 409))"
  by (auto simp: signup_check_def bind_exn_def)

lemma ex_valid_email: "is_valid_email ''a@b.com''"
  by code_simp

text \<open>
  C7 (amended). Two signup requests with the same normalised email never both succeed,
  whatever the order in which their look-ups and commits are run: the commit refuses an
  email that is already stored. The handler looks the email up before it commits, and a
  signup whose look-up finds the email is answered with 409 and leaves the store as it is.
\<close>

theorem signup_never_both_succeed:
  "(normalized_email da = normalized_email db
      \<and> run_signups L ia ib sched (st, Start da, Start db) = (st', a', b')
    \<longrightarrow> \<not> (succeeded a' \<and> succeeded b'))
   \<and> (truthy data \<and> normalized_email data = Inr addr \<and> addr \<noteq> [] \<and> is_valid_email addr
      \<and> dict_get data ''password'' (JStr []) = Inr pw \<and> truthy pw \<and> len_json pw = Inr n \<and> 8 \<le> n
      \<and> first_by_email st addr \<noteq> None
    \<longrightarrow> signup L vt salt now db_up st data =
          (Inr (JDict [(''error'', JStr ''Email already registered'')], 409), st))"
proof (intro conjI impI)
  assume a: "normalized_email da = normalized_email db
      \<and> run_signups L ia ib sched (st, Start da, Start db) = (st', a', b')"
  have "req_email (normalized_email da) (Start da)" by (simp add: req_email_def)
  moreover from a have "req_email (normalized_email da) (Start db)" by (simp add: req_email_def)
  moreover have "succeeded (Start da) \<or> succeeded (Start db) \<Longrightarrow>
      \<exists>e. normalized_email da = Inr e \<and> first_by_email st e \<noteq> None"
    by (simp add: succeeded_simps)
  moreover have "\<not> (succeeded (Start da) \<and> succeeded (Start db))"
    by (simp add: succeeded_simps)
  moreover from a have "run_signups L ia ib sched (st, Start da, Start db) = (st', a', b')"
    by simp
  ultimately show "\<not> (succeeded a' \<and> succeeded b')"
    by (rule run_signups_invariant)
next
  assume "truthy data \<and> normalized_email data = Inr addr \<and> addr \<noteq> [] \<and> is_valid_email addr
      \<and> dict_get data ''password'' (JStr []) = Inr pw \<and> truthy pw \<and> len_json pw = Inr n \<and> 8 \<le> n
      \<and> first_by_email st addr \<noteq> None"
  then have "signup_check st data =
      Inr (Inl (JDict [(''error'', JStr ''Email already registered'')], 409))"
    using signup_check_taken by blast
  then show "signup L vt salt now db_up st data =
          (Inr (JDict [(''error'', JStr ''Email already registered'')], 409), st)"
    by (simp add: signup_def)
qed

theorem signup_never_both_succeed_witness:
  "\<not> (succeeded (Done (Inr (JDict [(''message'', JStr ''User created successfully''),
                  (''user'', to_dict example_lib example_user),
                  (''verification_token'', JStr ''tok''),
                  (''note'', JStr ''In production, verification token would be sent via email'')],
           201)))
      \<and> succeeded (Done (Inr (JDict [(''error'', JStr ''Failed to create user'')], 500))))
   \<and> signup example_lib ''tok2'' 1 1 True [example_user] example_data =
       (Inr (JDict [(''error'', JStr ''Email already registered'')], 409), [example_user])"
proof -
  have h1: "normalized_email example_data = normalized_email example_data
      \<and> run_signups example_lib example_inputs example_inputs [True, False, True, False]
            ([], Start example_data, Start example_data) =
          ([example_user],
           Done (Inr (JDict [(''message'', JStr ''User created successfully''),
                  (''user'', to_dict example_lib example_user),
                  (''verification_token'', JStr ''tok''),
                  (''note'', JStr ''In production, verification token would be sent via email'')],
           201)),
           Done (Inr (JDict [(''error'', JStr ''Failed to create user'')], 500)))"
    using ex_run_signups by simp
  have h2: "truthy example_data \<and> normalized_email example_data = Inr ''a@b.com''
      \<and> ''a@b.com'' \<noteq> [] \<and> is_valid_email ''a@b.com''
      \<and> dict_get example_data ''password'' (JStr []) = Inr (JStr ''abcdefgh'')
      \<and> truthy (JStr ''abcdefgh'') \<and> len_json (JStr ''abcdefgh'') = Inr 8 \<and> (8::nat) \<le> 8
      \<and> first_by_email [example_user] ''a@b.com'' \<noteq> None"
    by (simp add: ex_normalized_email ex_valid_email ex_first_by_email) (simp add: example_data_def)
  from h1 signup_never_both_succeed
    [where da = example_data and db = example_data and L = example_lib and ia = example_inputs
       and ib = example_inputs and sched = "[True, False, True, False]" and st = "[]"
       and st' = "[example_user]"
       and a' = "Done (Inr (JDict [(''message'', JStr ''User created successfully''),
                  (''user'', to_dict example_lib example_user),
                  (''verification_token'', JStr ''tok''),
                  (''note'', JStr ''In production, verification token would be sent via email'')],
           201))"
       and b' = "Done (Inr (JDict [(''error'', JStr ''Failed to create user'')], 500))"]
  have c1: "\<not> (succeeded (Done (Inr (JDict [(''message'', JStr ''User created successfully''),
                  (''user'', to_dict example_lib example_user),
                  (''verification_token'', JStr ''tok''),
                  (''note'', JStr ''In production, verification token would be sent via email'')],
           201)))
      \<and> succeeded (Done (Inr (JDict [(''error'', JStr ''Failed to create user'')], 500))))"
    by blast
  from h2 signup_never_both_succeed
    [where data = example_data and addr = "''a@b.com''" and pw = "JStr ''abcdefgh''" and n = 8
       and st = "[example_user]" and L = example_lib and vt = "''tok2''" and salt = 1 and now = 1
       and db_up = True]
  have c2: "signup example_lib ''tok2'' 1 1 True [example_user] example_data =
       (Inr (JDict [(''error'', JStr ''Email already registered'')], 409), [example_user])"
    by blast
  from c1 c2 show ?thesis by blast
qed

text \<open>
  C7 as stated fails: the record is not persisted by a create without a prior read. With
  both look-ups run before either commit, the second request passes its own read of the
  store, and its create is then refused at the commit with status 500, not with a conflict.
\<close>

theorem signup_race_not_conflict:
  "signup_check [] example_data = Inr (Inr (''a@b.com'', JStr ''abcdefgh''))
   \<and> succeeded (fst (snd (run_signups example_lib example_inputs example_inputs
         [True, False, True, False] ([], Start example_data, Start example_data))))
   \<and> snd (snd (run_signups example_lib example_inputs example_inputs
         [True, False, True, False] ([], Start example_data, Start example_data)))
       = Done (Inr (JDict [(''error'', JStr ''Failed to create user'')], 500))
   \<and> map email (fst (run_signups example_lib example_inputs example_inputs
         [True, False, True, False] ([], Start example_data, Start example_data))) = [''a@b.com'']"
  unfolding ex_run_signups ex_signup_check
  by (simp add: succeeded_Done example_user_def)

section \<open>Email verification\<close>

lemma ex_signup:
  "signup example_lib ''tok'' 0 0 True [] example_data =
     (Inr (JDict [(''message'', JStr ''User created successfully''),
                  (''user'', to_dict example_lib example_user),
                  (''verification_token'', JStr ''tok''),
                  (''note'', JStr ''In production, verification token would be sent via email'')],
           201), [example_user])"
  by (simp add: signup_def ex_signup_check ex_signup_create_first)

text \<open>
  C3. The code misses the claim. After a signup and a first verification the account is
  verified, and a second call with the same verification token is answered with 400 and
  \<open>Invalid verification token\<close>: the first call cleared the token, so the look-up finds
  no account and the branch that answers \<open>Email already verified\<close> is not reached.
\<close>

theorem verify_email_twice_rejected:
  "snd (signup example_lib ''tok'' 0 0 True [] example_data) = [example_user]
   \<and> snd (fst (verify_email example_lib 0 True [example_user] ''tok'')) = 200
   \<and> map is_verified (snd (verify_email example_lib 0 True [example_user] ''tok'')) = [True]
   \<and> verify_email example_lib 1 True (snd (verify_email example_lib 0 True [example_user] ''tok'')) ''tok''
     = ((JDict [(''error'', JStr ''Invalid verification token'')], 400),
        snd (verify_email example_lib 0 True [example_user] ''tok''))"
proof -
  let ?u = "example_user\<lparr>is_verified := True, verification_token := None,
                          updated_at := Some (Naive 0)\<rparr>"
  have f: "first_by_verification_token [example_user] ''tok'' = Some example_user"
    by (simp add: first_by_verification_token_def example_user_def)
  have n: "\<not> is_verified example_user" by (simp add: example_user_def)
  have one: "verify_email example_lib 0 True [example_user] ''tok'' =
      ((JDict [(''message'', JStr ''Email verified successfully''),
               (''user'', to_dict example_lib ?u)], 200), [?u])"
    using f n by (simp add: verify_email_def commit_update_def Let_def)
  have g: "first_by_verification_token [?u] ''tok'' = None"
    by (simp add: first_by_verification_token_def)
  have two: "verify_email example_lib 1 True [?u] ''tok'' =
      ((JDict [(''error'', JStr ''Invalid verification token'')], 400), [?u])"
    using g by (simp add: verify_email_def)
  from one two show ?thesis by (simp add: ex_signup)
qed

end
